theory Spec2Isabelle
  imports Complex_Main "HOL-Library.Sublist"
begin

section \<open>Values of the platform\<close>

text \<open>
  The client (\<^verbatim>\<open>src/index.ts\<close>) is TypeScript. Its numbers are modelled as rationals:
  \<^verbatim>\<open>Date.now()\<close> yields an integer count of milliseconds, \<^verbatim>\<open>rtt / 2\<close> may be a half,
  and a JSON number is a decimal fraction. On millisecond timestamps (far below \<open>2^52\<close>)
  the arithmetic of the source is exact, so the rational model computes the same values;
  \<^verbatim>\<open>NaN\<close> and the infinities are outside the model.
\<close>

text \<open>A parsed JSON document (what \<^verbatim>\<open>response.body.json()\<close> resolves to). An object lists
  its own properties, each key once.\<close>

datatype json =
    JNull
  | JBool bool
  | JNum rat
  | JStr string
  | JArr "json list"
  | JObj "(string \<times> json) list"

text \<open>Truthiness of a parsed JSON value, as in \<^verbatim>\<open>errorBody ? ... : ...\<close>.\<close>

fun truthy :: "json \<Rightarrow> bool" where
  "truthy JNull = False"
| "truthy (JBool b) = b"
| "truthy (JNum n) = (n \<noteq> 0)"
| "truthy (JStr s) = (s \<noteq> [])"
| "truthy (JArr _) = True"
| "truthy (JObj _) = True"

text \<open>Property access \<^verbatim>\<open>v?.name\<close> on a parsed JSON value: only an object has own
  properties that JSON can carry; \<open>None\<close> is \<^verbatim>\<open>undefined\<close>.\<close>

fun getProp :: "json \<Rightarrow> string \<Rightarrow> json option" where
  "getProp (JObj kvs) name = map_of kvs name"
| "getProp _ name = None"

text \<open>\<^verbatim>\<open>typeof v?.name === 'string'\<close> together with the string read.\<close>

definition stringProp :: "json \<Rightarrow> string \<Rightarrow> string option" where
  "stringProp v name = (case getProp v name of Some (JStr s) \<Rightarrow> Some s | _ \<Rightarrow> None)"

text \<open>\<^verbatim>\<open>typeof v?.name === 'number'\<close> together with the number read.\<close>

definition numberProp :: "json \<Rightarrow> string \<Rightarrow> rat option" where
  "numberProp v name = (case getProp v name of Some (JNum n) \<Rightarrow> Some n | _ \<Rightarrow> None)"

text \<open>
  A thrown value, by what the source reads of it: \<^verbatim>\<open>error.message\<close> (\<open>None\<close> when
  undefined), \<^verbatim>\<open>error.error\<close> when that is a string, and \<^verbatim>\<open>String(error)\<close>.
\<close>

record thrown =
  message :: "string option"
  errorProp :: "string option"
  asString :: string

text \<open>\<^verbatim>\<open>new Error(m)\<close>.\<close>

definition newError :: "string \<Rightarrow> thrown" where
  "newError m =
     \<lparr>message = Some m, errorProp = None,
      asString = (if m = [] then ''Error'' else ''Error: '' @ m)\<rparr>"

text \<open>\<^verbatim>\<open>error.message || String(error)\<close>.\<close>

definition messageOrString :: "thrown \<Rightarrow> string" where
  "messageOrString error =
     (case message error of
        Some m \<Rightarrow> if m \<noteq> [] then m else asString error
      | None \<Rightarrow> asString error)"

text \<open>The outcome of \<^verbatim>\<open>response.body.json()\<close> and of \<^verbatim>\<open>await request(...)\<close>.\<close>

datatype parsed = Parsed json | Unparsable thrown

record response =
  statusCode :: nat
  body :: parsed

datatype net = Rejects thrown | Responds response

text \<open>
  Built-ins of the platform that the source calls and does not define: \<^verbatim>\<open>JSON.stringify\<close>,
  the conversion of a number inside a template literal, and \<^verbatim>\<open>String.prototype.toUpperCase\<close>.
  They are parameters of the model.
\<close>

record js =
  JSON_stringify :: "json \<Rightarrow> string"
  numToString :: "rat \<Rightarrow> string"
  toUpperCase :: "string \<Rightarrow> string"

text \<open>\<^verbatim>\<open>wf_stringify\<close>: \<^verbatim>\<open>JSON.stringify\<close> with a replacer for BigInts; a parsed JSON
  document holds none.\<close>

definition wf_stringify :: "js \<Rightarrow> json \<Rightarrow> string" where
  "wf_stringify js obj = JSON_stringify js obj"

section \<open>Time synchronisation\<close>

record TimeSyncState =
  latency :: "rat option"
  offset :: rat
  lastCheck :: "rat option"
  nextIntervalMs :: rat

definition BASE_SYNC_INTERVAL_MS :: rat where
  "BASE_SYNC_INTERVAL_MS = 30000"

definition BACKOFF_STEP_MS :: rat where
  "BACKOFF_STEP_MS = 15000"

definition MAX_SYNC_INTERVAL_MS :: rat where
  "MAX_SYNC_INTERVAL_MS = 180000"

text \<open>The field initialiser of \<^verbatim>\<open>timeSync\<close>.\<close>

definition initialTimeSync :: TimeSyncState where
  "initialTimeSync =
     \<lparr>latency = None, offset = 0, lastCheck = None, nextIntervalMs = BASE_SYNC_INTERVAL_MS\<rparr>"

definition incrementBackoff :: "TimeSyncState \<Rightarrow> TimeSyncState" where
  "incrementBackoff ts =
     (let increased = nextIntervalMs ts + BACKOFF_STEP_MS;
          nextIntervalMs' = min increased MAX_SYNC_INTERVAL_MS
      in ts\<lparr>nextIntervalMs := nextIntervalMs'\<rparr>)"

text \<open>
  One run of the closure \<^verbatim>\<open>sync\<close> of \<^verbatim>\<open>startTimeSync\<close>. Its inputs are the two readings of
  \<^verbatim>\<open>Date.now()\<close> and the outcome of the \<^verbatim>\<open>GET /time\<close> request. It yields the new
  \<^verbatim>\<open>this.timeSync\<close>, the rejection of its promise if it throws, and the delay that the
  \<^verbatim>\<open>finally\<close> block passes to \<^verbatim>\<open>setTimeout\<close>. The \<^verbatim>\<open>console.warn\<close> lines are not modelled.
\<close>

record attempt =
  sendTime :: int
  receiveTime :: int
  reply :: net

record syncRun =
  timeSyncAfter :: TimeSyncState
  syncRejected :: "thrown option"
  timerDelay :: rat

text \<open>The \<^verbatim>\<open>try\<close> block: \<open>Inl\<close> is an exception that reaches the \<^verbatim>\<open>catch\<close>.\<close>

definition sync_try :: "attempt \<Rightarrow> TimeSyncState \<Rightarrow> thrown + TimeSyncState" where
  "sync_try a ts =
     (case reply a of
        Rejects error \<Rightarrow> Inl error
      | Responds response \<Rightarrow>
          (let rtt = rat_of_int (receiveTime a) - rat_of_int (sendTime a);
               latency' = rtt / 2
           in case body response of
                Unparsable error \<Rightarrow> Inl error
              | Parsed b \<Rightarrow>
                  (case numberProp b ''serverUtcMilliseconds'' of
                     Some serverUtcMilliseconds \<Rightarrow>
                       (let clientTimeAtServer = rat_of_int (receiveTime a) - latency';
                            offset' = serverUtcMilliseconds - clientTimeAtServer
                        in Inr \<lparr>latency = Some latency', offset = offset',
                                lastCheck = Some (rat_of_int (receiveTime a)),
                                nextIntervalMs = BASE_SYNC_INTERVAL_MS\<rparr>)
                   | None \<Rightarrow> Inr (incrementBackoff ts))))"

definition sync :: "bool \<Rightarrow> attempt \<Rightarrow> TimeSyncState \<Rightarrow> syncRun" where
  "sync isInitial a ts =
     (case sync_try a ts of
        Inr ts' \<Rightarrow>
          \<lparr>timeSyncAfter = ts', syncRejected = None, timerDelay = nextIntervalMs ts'\<rparr>
      | Inl error \<Rightarrow>
          if isInitial then
            \<lparr>timeSyncAfter = ts,
             syncRejected = Some (newError ''Helles startup connection health check failed''),
             timerDelay = nextIntervalMs ts\<rparr>
          else
            (let ts' = incrementBackoff ts
             in \<lparr>timeSyncAfter = ts', syncRejected = None, timerDelay = nextIntervalMs ts'\<rparr>))"

text \<open>
  The self-rearming loop: \<^verbatim>\<open>sync(true)\<close> once, then \<^verbatim>\<open>sync(false)\<close> from every timer. The
  \<^verbatim>\<open>finally\<close> block sets the timer also when the initial attempt throws, so the next
  attempt follows every attempt. The loop never stops; the state after its first \<open>n\<close>
  attempts is the state after a list of \<open>n\<close> attempts.
\<close>

fun syncLoop :: "bool \<Rightarrow> TimeSyncState \<Rightarrow> attempt list \<Rightarrow> TimeSyncState" where
  "syncLoop isInitial ts [] = ts"
| "syncLoop isInitial ts (a # rest) = syncLoop False (timeSyncAfter (sync isInitial a ts)) rest"

text \<open>\<^verbatim>\<open>startTimeSync\<close>, called by the constructor on the initial state.\<close>

definition startTimeSync :: "attempt list \<Rightarrow> TimeSyncState" where
  "startTimeSync attempts = syncLoop True initialTimeSync attempts"

text \<open>An attempt succeeds when the \<^verbatim>\<open>/time\<close> call returns a numeric
  \<^verbatim>\<open>serverUtcMilliseconds\<close>.\<close>

definition serverTime :: "attempt \<Rightarrow> rat option" where
  "serverTime a =
     (case reply a of
        Rejects error \<Rightarrow> None
      | Responds response \<Rightarrow>
          (case body response of
             Unparsable error \<Rightarrow> None
           | Parsed b \<Rightarrow> numberProp b ''serverUtcMilliseconds''))"

text \<open>An attempt throws into the \<^verbatim>\<open>catch\<close> block when the request or the parse of its body
  rejects.\<close>

definition throws :: "attempt \<Rightarrow> bool" where
  "throws a =
     (case reply a of
        Rejects error \<Rightarrow> True
      | Responds response \<Rightarrow>
          (case body response of Unparsable error \<Rightarrow> True | Parsed b \<Rightarrow> False))"

section \<open>The client\<close>

text \<open>
  An error handler \<^verbatim>\<open>(error: any) => void\<close>: it returns (\<open>None\<close>) or throws in its turn.
  The attribute object of a call is held in a store, since the caller keeps a reference to
  it: \<^verbatim>\<open>eventAttributes\<close> is the address of the caller's object, or absent.
\<close>

type_synonym handler = "thrown \<Rightarrow> thrown option"

type_synonym attributes = "string \<rightharpoonup> json"

type_synonym ref = nat

type_synonym store = "ref \<Rightarrow> attributes"

text \<open>\<^verbatim>\<open>eventTimestampFunc\<close> reads the environment of the call; its argument stands for
  the instant it is called at, and \<open>None\<close> for a nullish return.\<close>

record defaults =
  sender :: "string option"
  traceType :: "string option"
  eventTimestampFunc :: "(int \<Rightarrow> rat option) option"
  defaultsOnError :: "handler option"
  traceSuffix :: "string option"

record HellesClient =
  hellesHost :: string
  apiKey :: "string option"
  defaults :: defaults
  registeredTraces :: "string set"
  timeSync :: TimeSyncState

text \<open>The parameter object of \<^verbatim>\<open>deleteTrace\<close>, extended by the further parameters of
  \<^verbatim>\<open>logTraceEvent\<close>.\<close>

record deleteParams =
  traceKey :: string
  onError :: "handler option"

record logParams = deleteParams +
  eventType :: string
  eventString :: "string option"
  eventSender :: "string option"
  eventAttributes :: "ref option"
  eventTimestampUtc :: "rat option"
  eventUniquer :: "string option"
  eventTypeIcon :: "string option"
  eventTypeLabel :: "string option"

text \<open>The request bodies, field by field, before \<^verbatim>\<open>wf_stringify\<close>.\<close>

datatype payload =
    RegisterPayload (rTraceKey: string) (rTraceType: string) (rTraceString: string)
  | PostPayload (pTraceKey: string) (pEventTypeKey: string) (pEventString: "string option")
      (pEventAttributes: attributes) (pEventSender: string) (pEventTimestampUtc: rat)
      (pEventUniquer: "string option")
  | DeletePayload (dApiKey: string) (dTraceKey: string)

text \<open>What a call does to the outside, in order: a \<^verbatim>\<open>POST\<close> to a URL, or the call of a
  handler with the error it is given.\<close>

datatype effect =
    Post (postUrl: string) (postBody: payload)
  | PerCallHandler thrown
  | ClientHandler thrown

text \<open>How the promise of an \<^verbatim>\<open>async\<close> method settles; \<open>Resolved None\<close> is \<^verbatim>\<open>undefined\<close>.\<close>

datatype outcome = Resolved "json option" | Rejected thrown

record 'r run =
  result :: 'r
  clientAfter :: HellesClient
  effects :: "effect list"

record 'r logRun = "'r run" +
  storeAfter :: store

text \<open>The environment of one call of \<^verbatim>\<open>logTraceEvent\<close>: the reading of \<^verbatim>\<open>Date.now()\<close>
  and what the server answers to each request, if the call comes to make it.\<close>

record world =
  dateNow :: int
  registerReply :: net
  eventReply :: net

definition applyTraceSuffix :: "HellesClient \<Rightarrow> string \<Rightarrow> string" where
  "applyTraceSuffix c k =
     (case traceSuffix (defaults c) of
        Some sfx \<Rightarrow> if sfx \<noteq> [] then k @ sfx else k
      | None \<Rightarrow> k)"

text \<open>The method \<^verbatim>\<open>now()\<close> of the client: \<^verbatim>\<open>Date.now() + this.timeSync.offset\<close>.\<close>

definition now :: "HellesClient \<Rightarrow> int \<Rightarrow> rat" where
  "now c dateNow' = rat_of_int dateNow' + offset (timeSync c)"

text \<open>\<^verbatim>\<open>await response.body.json().catch(() => ({}))\<close>.\<close>

definition jsonOrEmpty :: "response \<Rightarrow> json" where
  "jsonOrEmpty response = (case body response of Parsed b \<Rightarrow> b | Unparsable error \<Rightarrow> JObj [])"

text \<open>\<^verbatim>\<open>errorBody ? wf_stringify(errorBody) : `HTTP ${response.statusCode}`\<close>.\<close>

definition errorDetailsOf :: "js \<Rightarrow> response \<Rightarrow> string" where
  "errorDetailsOf js response =
     (let errorBody = jsonOrEmpty response
      in if truthy errorBody then wf_stringify js errorBody
         else ''HTTP '' @ numToString js (of_nat (statusCode response)))"

text \<open>The error thrown on a status of 400 or more by the event and delete requests: the
  \<^verbatim>\<open>error\<close> string of the body if it has one, the details otherwise.\<close>

definition statusError :: "js \<Rightarrow> string \<Rightarrow> response \<Rightarrow> thrown" where
  "statusError js pre response =
     (case stringProp (jsonOrEmpty response) ''error'' of
        Some e \<Rightarrow> newError (pre @ e)
      | None \<Rightarrow> newError (pre @ errorDetailsOf js response))"

text \<open>The inner \<^verbatim>\<open>catch\<close> of the event and delete requests, which wraps whatever was
  thrown in the \<^verbatim>\<open>try\<close>.\<close>

definition rewrap :: "string \<Rightarrow> thrown \<Rightarrow> thrown" where
  "rewrap pre error =
     (case errorProp error of
        Some e \<Rightarrow> newError (pre @ e)
      | None \<Rightarrow> newError (pre @ messageOrString error))"

text \<open>\<^verbatim>\<open>error.message?.includes('registerTrace err:')\<close>.\<close>

definition isRegisterTraceErr :: "thrown \<Rightarrow> bool" where
  "isRegisterTraceErr error =
     (case message error of Some m \<Rightarrow> sublist ''registerTrace err:'' m | None \<Rightarrow> False)"

text \<open>The constructor, up to its call of \<^verbatim>\<open>startTimeSync\<close>.\<close>

definition newHellesClient :: "string \<Rightarrow> string option \<Rightarrow> defaults \<Rightarrow> HellesClient" where
  "newHellesClient host key dflts =
     \<lparr>hellesHost = (if host \<noteq> [] \<and> last host = CHR ''/'' then butlast host else host),
      apiKey = key, defaults = dflts, registeredTraces = {}, timeSync = initialTimeSync\<rparr>"

subsection \<open>\<^verbatim>\<open>logTraceEvent\<close>\<close>

text \<open>The two assignments to the attribute object, each under its truthiness test.\<close>

definition injectOverrides :: "'a logParams_scheme \<Rightarrow> attributes \<Rightarrow> attributes" where
  "injectOverrides p a =
     (let a1 = (case eventTypeLabel p of
                  Some l \<Rightarrow> if l \<noteq> [] then a(''eventTypeLabel'' \<mapsto> JStr l) else a
                | None \<Rightarrow> a);
          a2 = (case eventTypeIcon p of
                  Some i \<Rightarrow> if i \<noteq> [] then a1(''eventTypeIcon'' \<mapsto> JStr i) else a1
                | None \<Rightarrow> a1)
      in a2)"

text \<open>The local \<^verbatim>\<open>_eventTimestampUtc\<close>: the parameter unless undefined, else
  \<^verbatim>\<open>this.defaults.eventTimestampFunc?.() ?? this.now()\<close>.\<close>

definition effectiveTimestamp :: "world \<Rightarrow> HellesClient \<Rightarrow> 'a logParams_scheme \<Rightarrow> rat" where
  "effectiveTimestamp w c p =
     (let fromFunc = (case eventTimestampFunc (defaults c) of
                        Some f \<Rightarrow> f (dateNow w)
                      | None \<Rightarrow> None);
          defaultTimestamp = (case fromFunc of Some t \<Rightarrow> t | None \<Rightarrow> now c (dateNow w))
      in case eventTimestampUtc p of Some t \<Rightarrow> t | None \<Rightarrow> defaultTimestamp)"

text \<open>The local \<^verbatim>\<open>_eventSender = eventSender || this.defaults.sender\<close>; \<open>None\<close> is
  \<^verbatim>\<open>undefined\<close>.\<close>

definition effectiveSender :: "HellesClient \<Rightarrow> 'a logParams_scheme \<Rightarrow> string option" where
  "effectiveSender c p =
     (case eventSender p of
        Some s \<Rightarrow> if s \<noteq> [] then Some s else sender (defaults c)
      | None \<Rightarrow> sender (defaults c))"

text \<open>The block that registers the trace unless the cache has its key. \<open>Some\<close> is the
  error it throws.\<close>

definition registerTrace ::
  "js \<Rightarrow> net \<Rightarrow> HellesClient \<Rightarrow> string \<Rightarrow> thrown option \<times> HellesClient \<times> effect list" where
  "registerTrace js rep c k =
     (if k \<in> registeredTraces c then (None, c, [])
      else
        (let registerPayload =
               RegisterPayload k
                 (case traceType (defaults c) of Some t \<Rightarrow> t | None \<Rightarrow> ''TRACE'') k;
             request = Post (hellesHost c @ ''/traces'') registerPayload;
             caught =
               (case rep of
                  Rejects error \<Rightarrow> Some error
                | Responds response \<Rightarrow>
                    if statusCode response \<ge> 400
                    then Some (newError (''registerTrace err: '' @ errorDetailsOf js response))
                    else None)
         in case caught of
              Some error \<Rightarrow>
                (Some (if isRegisterTraceErr error then error
                       else newError (''registerTrace err: '' @ messageOrString error)),
                 c, [request])
            | None \<Rightarrow>
                (None, c\<lparr>registeredTraces := insert k (registeredTraces c)\<rparr>, [request])))"

text \<open>The block that posts the event.\<close>

definition postEvent :: "js \<Rightarrow> net \<Rightarrow> string \<Rightarrow> payload \<Rightarrow> (thrown + json) \<times> effect list" where
  "postEvent js rep host postPayload =
     (let request = Post (host @ ''/events'') postPayload;
          attempted =
            (case rep of
               Rejects error \<Rightarrow> Inl error
             | Responds response \<Rightarrow>
                 if statusCode response \<ge> 400
                 then Inl (statusError js ''logTraceEvent err: '' response)
                 else (case body response of
                         Parsed b \<Rightarrow> Inr b
                       | Unparsable error \<Rightarrow> Inl error))
      in case attempted of
           Inr b \<Rightarrow> (Inr b, [request])
         | Inl error \<Rightarrow> (Inl (rewrap ''logTraceEvent err: '' error), [request]))"

text \<open>The body of the outer \<^verbatim>\<open>try\<close>: \<open>Inl\<close> is the error that reaches the outer
  \<^verbatim>\<open>catch\<close>, \<open>Inr\<close> the value returned.\<close>

definition logTraceEvent_try ::
  "js \<Rightarrow> world \<Rightarrow> HellesClient \<Rightarrow> store \<Rightarrow> 'a logParams_scheme \<Rightarrow> (thrown + json) logRun" where
  "logTraceEvent_try js w c st p =
     (let traceKey' = applyTraceSuffix c (traceKey p);
          attrs = injectOverrides p (case eventAttributes p of Some r \<Rightarrow> st r | None \<Rightarrow> Map.empty);
          st' = (case eventAttributes p of Some r \<Rightarrow> st(r := attrs) | None \<Rightarrow> st);
          timestamp = effectiveTimestamp w c p
      in if timestamp > 2565000000000 \<or> timestamp < 1665000000000 then
           \<lparr>result = Inl (newError (''eventTimestampUtc value '' @ numToString js timestamp
                @ '' is out of range - expected Unix millisecond timestamp'')),
            clientAfter = c, effects = [], storeAfter = st'\<rparr>
         else
           (case effectiveSender c p of
              None \<Rightarrow>
                \<lparr>result = Inl (newError ''eventSender is required''),
                 clientAfter = c, effects = [], storeAfter = st'\<rparr>
            | Some sender' \<Rightarrow>
                (case registerTrace js (registerReply w) c traceKey' of
                   (Some error, c', fx) \<Rightarrow>
                     \<lparr>result = Inl error, clientAfter = c', effects = fx, storeAfter = st'\<rparr>
                 | (None, c', fx) \<Rightarrow>
                     (let postPayload =
                            PostPayload traceKey' (eventType p) (eventString p) attrs sender'
                              timestamp (eventUniquer p);
                          (res, fx') = postEvent js (eventReply w) (hellesHost c') postPayload
                      in \<lparr>result = res, clientAfter = c', effects = fx @ fx',
                          storeAfter = st'\<rparr>))))"

subsection \<open>The outer \<^verbatim>\<open>catch\<close> of both methods\<close>

text \<open>The per-call handler if there is one, else the handler of the client if there is
  one, else the error is thrown again. A handler that returns leaves the method to end
  without a \<^verbatim>\<open>return\<close>.\<close>

definition settle :: "thrown option \<Rightarrow> outcome" where
  "settle thrownByHandler =
     (case thrownByHandler of None \<Rightarrow> Resolved None | Some error' \<Rightarrow> Rejected error')"

definition routeError :: "handler option \<Rightarrow> HellesClient \<Rightarrow> thrown \<Rightarrow> outcome \<times> effect list" where
  "routeError onError' c error =
     (case onError' of
        Some h \<Rightarrow> (settle (h error), [PerCallHandler error])
      | None \<Rightarrow>
          (case defaultsOnError (defaults c) of
             Some g \<Rightarrow> (settle (g error), [ClientHandler error])
           | None \<Rightarrow> (Rejected error, [])))"

definition logTraceEvent ::
  "js \<Rightarrow> world \<Rightarrow> HellesClient \<Rightarrow> store \<Rightarrow> 'a logParams_scheme \<Rightarrow> outcome logRun" where
  "logTraceEvent js w c st p =
     (let tried = logTraceEvent_try js w c st p
      in case result tried of
           Inr b \<Rightarrow>
             \<lparr>result = Resolved (Some b), clientAfter = clientAfter tried,
              effects = effects tried, storeAfter = storeAfter tried\<rparr>
         | Inl error \<Rightarrow>
             (let (settled, fx) = routeError (onError p) (clientAfter tried) error
              in \<lparr>result = settled, clientAfter = clientAfter tried,
                  effects = effects tried @ fx, storeAfter = storeAfter tried\<rparr>))"

subsection \<open>\<^verbatim>\<open>deleteTrace\<close>\<close>

definition deleteTrace_try ::
  "js \<Rightarrow> net \<Rightarrow> HellesClient \<Rightarrow> 'a deleteParams_scheme \<Rightarrow> (thrown + json) run" where
  "deleteTrace_try js rep c p =
     (case (case apiKey c of Some key \<Rightarrow> if key \<noteq> [] then Some key else None | None \<Rightarrow> None) of
        None \<Rightarrow>
          \<lparr>result = Inl (newError ''API key is required for deleteTrace''),
           clientAfter = c, effects = []\<rparr>
      | Some key \<Rightarrow>
          if traceKey p = [] then
            \<lparr>result = Inl (newError ''traceKey is required''), clientAfter = c, effects = []\<rparr>
          else
            (let traceKey' = applyTraceSuffix c (traceKey p);
                 normalizedTraceKey = toUpperCase js traceKey';
                 request = Post (hellesHost c @ ''/traces/delete'')
                             (DeletePayload key normalizedTraceKey)
             in case rep of
                  Rejects error \<Rightarrow>
                    \<lparr>result = Inl (rewrap ''deleteTrace err: '' error),
                     clientAfter = c, effects = [request]\<rparr>
                | Responds response \<Rightarrow>
                    if statusCode response \<ge> 400 then
                      \<lparr>result = Inl (rewrap ''deleteTrace err: ''
                                       (statusError js ''deleteTrace err: '' response)),
                       clientAfter = c, effects = [request]\<rparr>
                    else
                      (let c' = (if normalizedTraceKey \<in> registeredTraces c
                                 then c\<lparr>registeredTraces :=
                                          registeredTraces c - {normalizedTraceKey}\<rparr>
                                 else c)
                       in case body response of
                            Parsed b \<Rightarrow>
                              \<lparr>result = Inr b, clientAfter = c', effects = [request]\<rparr>
                          | Unparsable error \<Rightarrow>
                              \<lparr>result = Inl (rewrap ''deleteTrace err: '' error),
                               clientAfter = c', effects = [request]\<rparr>)))"

definition deleteTrace ::
  "js \<Rightarrow> net \<Rightarrow> HellesClient \<Rightarrow> 'a deleteParams_scheme \<Rightarrow> outcome run" where
  "deleteTrace js rep c p =
     (let tried = deleteTrace_try js rep c p
      in case result tried of
           Inr b \<Rightarrow>
             \<lparr>result = Resolved (Some b), clientAfter = clientAfter tried,
              effects = effects tried\<rparr>
         | Inl error \<Rightarrow>
             (let (settled, fx) = routeError (onError p) (clientAfter tried) error
              in \<lparr>result = settled, clientAfter = clientAfter tried,
                  effects = effects tried @ fx\<rparr>))"

section \<open>Vocabulary of the properties\<close>

text \<open>The kinds of effect, by the body that a request carries.\<close>

fun isPost :: "effect \<Rightarrow> bool" where
  "isPost (Post url pl) = True"
| "isPost _ = False"

fun isRegistrationCall :: "effect \<Rightarrow> bool" where
  "isRegistrationCall (Post url (RegisterPayload k t s)) = True"
| "isRegistrationCall _ = False"

fun isEventCall :: "effect \<Rightarrow> bool" where
  "isEventCall (Post url (PostPayload k e s a sn t u)) = True"
| "isEventCall _ = False"

text \<open>A request is accepted when it resolves with a status below 400, the complement of
  the test \<^verbatim>\<open>response.statusCode >= 400\<close> and of a rejection.\<close>

definition accepted :: "net \<Rightarrow> bool" where
  "accepted rep =
     (case rep of Rejects error \<Rightarrow> False | Responds response \<Rightarrow> statusCode response < 400)"

text \<open>The window of the timestamp check, bounds included: the negation of
  \<^verbatim>\<open>t > 2565000000000 || t < 1665000000000\<close>.\<close>

definition inWindow :: "rat \<Rightarrow> bool" where
  "inWindow t = (1665000000000 \<le> t \<and> t \<le> 2565000000000)"

text \<open>A call passes both checks that come before the first request.\<close>

definition passesValidation :: "world \<Rightarrow> HellesClient \<Rightarrow> 'a logParams_scheme \<Rightarrow> bool" where
  "passesValidation w c p = (inWindow (effectiveTimestamp w c p) \<and> effectiveSender c p \<noteq> None)"

text \<open>The two requests of \<^verbatim>\<open>logTraceEvent\<close>, as the source builds them.\<close>

definition registerCall :: "HellesClient \<Rightarrow> string \<Rightarrow> effect" where
  "registerCall c k =
     Post (hellesHost c @ ''/traces'')
       (RegisterPayload k (case traceType (defaults c) of Some t \<Rightarrow> t | None \<Rightarrow> ''TRACE'') k)"

definition eventCall ::
  "world \<Rightarrow> HellesClient \<Rightarrow> store \<Rightarrow> 'a logParams_scheme \<Rightarrow> string \<Rightarrow> effect" where
  "eventCall w c st p sender' =
     Post (hellesHost c @ ''/events'')
       (PostPayload (applyTraceSuffix c (traceKey p)) (eventType p) (eventString p)
          (injectOverrides p (case eventAttributes p of Some r \<Rightarrow> st r | None \<Rightarrow> Map.empty))
          sender' (effectiveTimestamp w c p) (eventUniquer p))"

text \<open>The message of the error that the timestamp check throws.\<close>

definition outOfRange :: "js \<Rightarrow> rat \<Rightarrow> thrown" where
  "outOfRange js t =
     newError (''eventTimestampUtc value '' @ numToString js t
       @ '' is out of range - expected Unix millisecond timestamp'')"

section \<open>Example values\<close>

text \<open>An instance of the built-ins for the examples: upper case of the ASCII letters, the
  decimal digits of a natural number, and a stand-in for the text of a JSON value.\<close>

definition upperChar :: "char \<Rightarrow> char" where
  "upperChar ch =
     (case map_of (zip ''abcdefghijklmnopqrstuvwxyz'' ''ABCDEFGHIJKLMNOPQRSTUVWXYZ'') ch of
        Some u \<Rightarrow> u
      | None \<Rightarrow> ch)"

fun showNat :: "nat \<Rightarrow> string" where
  "showNat n =
     (if n < 10 then [''0123456789'' ! n]
      else showNat (n div 10) @ [''0123456789'' ! (n mod 10)])"

definition demoJs :: js where
  "demoJs =
     \<lparr>JSON_stringify = (\<lambda>v. case v of JObj [] \<Rightarrow> ''{}'' | _ \<Rightarrow> ''[json]''),
      numToString = (\<lambda>q. showNat (nat \<lfloor>q\<rfloor>)),
      toUpperCase = map upperChar\<rparr>"

definition timeReply :: "rat \<Rightarrow> net" where
  "timeReply t =
     Responds \<lparr>statusCode = 200, body = Parsed (JObj [(''serverUtcMilliseconds'', JNum t)])\<rparr>"

definition refused :: net where
  "refused = Rejects (newError ''connect ECONNREFUSED'')"

definition okReply :: "json \<Rightarrow> net" where
  "okReply b = Responds \<lparr>statusCode = 200, body = Parsed b\<rparr>"

definition serverError :: net where
  "serverError = Responds \<lparr>statusCode = 500, body = Parsed (JObj [(''error'', JStr ''boom'')])\<rparr>"

definition demoDefaults :: defaults where
  "demoDefaults =
     \<lparr>sender = Some ''my-service'', traceType = None, eventTimestampFunc = None,
      defaultsOnError = None, traceSuffix = Some ''_dev''\<rparr>"

definition demoClient :: HellesClient where
  "demoClient = newHellesClient ''https://helles.example/'' (Some ''secret'') demoDefaults"

definition demoParams :: logParams where
  "demoParams =
     \<lparr>traceKey = ''deposit_1234567'', onError = None, eventType = ''NOTE'',
      eventString = Some ''Deposit initiated'', eventSender = None, eventAttributes = Some 0,
      eventTimestampUtc = Some 1700000000000, eventUniquer = None, eventTypeIcon = None,
      eventTypeLabel = None\<rparr>"

definition demoStore :: store where
  "demoStore = (\<lambda>r. if r = 0 then [''amount'' \<mapsto> JNum 1000] else Map.empty)"

definition demoWorld :: world where
  "demoWorld =
     \<lparr>dateNow = 1700000000000, registerReply = okReply (JObj []),
      eventReply = okReply (JObj [(''id'', JNum 1)])\<rparr>"

text \<open>A handler that returns, as one that logs the error would.\<close>

definition absorb :: handler where
  "absorb error = None"

text \<open>A handler that throws what it is given.\<close>

definition rethrow :: handler where
  "rethrow error = Some error"

text \<open>A first call on the fresh client, which registers the trace and posts the event.\<close>

definition demoRun1 :: "outcome logRun" where
  "demoRun1 = logTraceEvent demoJs demoWorld demoClient demoStore demoParams"

text \<open>A client without a suffix, and its state after it has registered the two traces
  \<^verbatim>\<open>DEPOSIT_1\<close> and \<^verbatim>\<open>deposit_1\<close>.\<close>

definition plainClient :: HellesClient where
  "plainClient =
     newHellesClient ''https://helles.example'' (Some ''secret'')
       (demoDefaults\<lparr>traceSuffix := None\<rparr>)"

definition bothCached :: HellesClient where
  "bothCached =
     clientAfter (logTraceEvent demoJs demoWorld
       (clientAfter (logTraceEvent demoJs demoWorld plainClient demoStore
          (demoParams\<lparr>traceKey := ''DEPOSIT_1''\<rparr>)))
       demoStore (demoParams\<lparr>traceKey := ''deposit_1''\<rparr>))"

section \<open>Properties of time synchronisation\<close>

lemma incrementBackoff_frame:
  "incrementBackoff ts = ts\<lparr>nextIntervalMs := min (nextIntervalMs ts + 15000) 180000\<rparr>"
  by (simp add: incrementBackoff_def BACKOFF_STEP_MS_def MAX_SYNC_INTERVAL_MS_def)

lemma sync_success:
  assumes "serverTime a = Some t"
  shows "sync isInitial a ts =
     \<lparr>timeSyncAfter =
        \<lparr>latency = Some ((rat_of_int (receiveTime a) - rat_of_int (sendTime a)) / 2),
         offset = t - (rat_of_int (receiveTime a)
                        - (rat_of_int (receiveTime a) - rat_of_int (sendTime a)) / 2),
         lastCheck = Some (rat_of_int (receiveTime a)),
         nextIntervalMs = 30000\<rparr>,
      syncRejected = None, timerDelay = 30000\<rparr>"
  using assms
  by (auto simp: sync_def sync_try_def serverTime_def BASE_SYNC_INTERVAL_MS_def Let_def
      split: net.splits parsed.splits option.splits)

lemma sync_failure:
  assumes "serverTime a = None"
  shows "timeSyncAfter (sync isInitial a ts) =
     (if isInitial \<and> throws a then ts else incrementBackoff ts)"
  using assms
  by (auto simp: sync_def sync_try_def serverTime_def throws_def Let_def
      split: net.splits parsed.splits option.splits)

lemma syncLoop_append:
  "syncLoop isInitial ts (xs @ ys)
     = syncLoop (isInitial \<and> xs = []) (syncLoop isInitial ts xs) ys"
  by (induction xs arbitrary: isInitial ts) auto

lemma sync_bounds:
  assumes "30000 \<le> nextIntervalMs ts" "nextIntervalMs ts \<le> 180000"
  shows "30000 \<le> nextIntervalMs (timeSyncAfter (sync isInitial a ts))
       \<and> nextIntervalMs (timeSyncAfter (sync isInitial a ts)) \<le> 180000"
proof (cases "serverTime a")
  case None
  then show ?thesis using assms by (simp add: sync_failure incrementBackoff_frame)
next
  case (Some t)
  then show ?thesis by (simp add: sync_success)
qed

lemma syncLoop_bounds:
  "30000 \<le> nextIntervalMs ts \<Longrightarrow> nextIntervalMs ts \<le> 180000 \<Longrightarrow>
   30000 \<le> nextIntervalMs (syncLoop isInitial ts xs)
   \<and> nextIntervalMs (syncLoop isInitial ts xs) \<le> 180000"
proof (induction xs arbitrary: isInitial ts)
  case Nil
  then show ?case by simp
next
  case (Cons a xs)
  then show ?case using sync_bounds[of ts isInitial a] by simp
qed

lemma startTimeSync_bounds:
  "30000 \<le> nextIntervalMs (startTimeSync xs) \<and> nextIntervalMs (startTimeSync xs) \<le> 180000"
  unfolding startTimeSync_def
  by (rule syncLoop_bounds) (simp_all add: initialTimeSync_def BASE_SYNC_INTERVAL_MS_def)

lemma startTimeSync_snoc:
  "startTimeSync (xs @ [a]) = timeSyncAfter (sync (xs = []) a (startTimeSync xs))"
  by (simp add: startTimeSync_def syncLoop_append)

lemma syncLoop_failures:
  "\<forall>a\<in>set failures. serverTime a = None \<Longrightarrow>
   syncLoop False ts failures
     = ts\<lparr>nextIntervalMs := nextIntervalMs (syncLoop False ts failures)\<rparr>"
proof (induction failures arbitrary: ts)
  case Nil
  then show ?case by simp
next
  case (Cons a failures)
  have step: "timeSyncAfter (sync False a ts) = incrementBackoff ts"
    using Cons.prems by (simp add: sync_failure)
  have "syncLoop False (incrementBackoff ts) failures =
        (incrementBackoff ts)
          \<lparr>nextIntervalMs := nextIntervalMs (syncLoop False (incrementBackoff ts) failures)\<rparr>"
    using Cons.IH[of "incrementBackoff ts"] Cons.prems by simp
  then show ?case
    by (simp add: step incrementBackoff_frame)
qed

lemma sync_rejected:
  "syncRejected (sync isInitial a ts)
     = (if isInitial \<and> throws a
        then Some (newError ''Helles startup connection health check failed'')
        else None)"
  by (auto simp: sync_def sync_try_def throws_def Let_def
      split: net.splits parsed.splits option.splits sum.splits)

lemmas sync_eval = startTimeSync_def sync_def sync_try_def serverTime_def throws_def
  timeReply_def refused_def numberProp_def initialTimeSync_def incrementBackoff_def
  BASE_SYNC_INTERVAL_MS_def BACKOFF_STEP_MS_def MAX_SYNC_INTERVAL_MS_def newError_def Let_def

text \<open>
  C1. Whenever the \<^verbatim>\<open>/time\<close> call returns a numeric \<^verbatim>\<open>serverUtcMilliseconds\<close>, the state
  stored by the attempt has \<open>latency = (receiveTime - sendTime) / 2\<close>,
  \<open>offset = serverUtcMilliseconds - (receiveTime - latency)\<close>, \<open>lastCheck = receiveTime\<close>
  and \<open>nextIntervalMs = BASE_SYNC_INTERVAL_MS\<close>, on the initial attempt as on a later one
  and from any earlier state; the attempt does not throw.
\<close>

theorem sync_success_state:
  assumes "serverTime a = Some serverUtcMilliseconds"
  shows "latency (timeSyncAfter (sync isInitial a ts))
           = Some ((rat_of_int (receiveTime a) - rat_of_int (sendTime a)) / 2)
       \<and> offset (timeSyncAfter (sync isInitial a ts))
           = serverUtcMilliseconds
             - (rat_of_int (receiveTime a)
                - (rat_of_int (receiveTime a) - rat_of_int (sendTime a)) / 2)
       \<and> lastCheck (timeSyncAfter (sync isInitial a ts)) = Some (rat_of_int (receiveTime a))
       \<and> nextIntervalMs (timeSyncAfter (sync isInitial a ts)) = BASE_SYNC_INTERVAL_MS
       \<and> syncRejected (sync isInitial a ts) = None"
  by (simp add: sync_success[OF assms] BASE_SYNC_INTERVAL_MS_def)

text \<open>The example of the specification: sent at 1,700,000,000,000, received 50 ms later,
  the server reports 1,700,000,000,100; the latency is 25 and the offset 75.\<close>

theorem sync_success_state_witness:
  "serverTime \<lparr>sendTime = 1700000000000, receiveTime = 1700000000050,
                reply = timeReply 1700000000100\<rparr> = Some 1700000000100
   \<and> timeSyncAfter (sync True \<lparr>sendTime = 1700000000000, receiveTime = 1700000000050,
                reply = timeReply 1700000000100\<rparr> initialTimeSync)
     = \<lparr>latency = Some 25, offset = 75, lastCheck = Some 1700000000050,
        nextIntervalMs = 30000\<rparr>"
proof -
  let ?a = "\<lparr>sendTime = 1700000000000, receiveTime = 1700000000050,
             reply = timeReply 1700000000100\<rparr>"
  have h: "serverTime ?a = Some 1700000000100"
    by (simp add: serverTime_def timeReply_def numberProp_def)
  show ?thesis
    using h sync_success_state[OF h, of True initialTimeSync]
    by (cases "timeSyncAfter (sync True ?a initialTimeSync)")
       (simp add: BASE_SYNC_INTERVAL_MS_def)
qed

text \<open>
  C2, as the claim states it, fails at the initial attempt: when the request of
  \<^verbatim>\<open>sync(true)\<close> rejects, the \<^verbatim>\<open>catch\<close> block throws the startup error and does not call
  \<^verbatim>\<open>incrementBackoff\<close>, so this failure leaves \<open>nextIntervalMs\<close> at 30000 instead of raising
  it to 45000.
\<close>

theorem initial_failure_counterexample:
  "serverTime \<lparr>sendTime = 1700000000000, receiveTime = 1700000000050, reply = refused\<rparr> = None
   \<and> nextIntervalMs (startTimeSync []) = 30000
   \<and> nextIntervalMs (startTimeSync
        [\<lparr>sendTime = 1700000000000, receiveTime = 1700000000050, reply = refused\<rparr>]) = 30000
   \<and> nextIntervalMs (startTimeSync
        [\<lparr>sendTime = 1700000000000, receiveTime = 1700000000050, reply = refused\<rparr>])
      \<noteq> min (nextIntervalMs (startTimeSync []) + 15000) 180000"
  by (simp add: sync_eval)

text \<open>
  C2, amended. After any number of attempts \<open>nextIntervalMs\<close> lies in \<open>[30000, 180000]\<close>.
  A further attempt that succeeds sets it to 30000. A further attempt that fails sets it
  to the smaller of its value plus 15000 and 180000 and does not throw, except the initial
  attempt when its request or the parse of its body rejects: that one throws the startup
  health-check error, leaves the state as it was (\<open>nextIntervalMs\<close> stays 30000) and sets the
  timer to 30000. In every case a failure does not decrease \<open>nextIntervalMs\<close>.
\<close>

theorem nextIntervalMs_reachable:
  "30000 \<le> nextIntervalMs (startTimeSync attempts)
   \<and> nextIntervalMs (startTimeSync attempts) \<le> 180000
   \<and> startTimeSync (attempts @ [a])
       = timeSyncAfter (sync (attempts = []) a (startTimeSync attempts))
   \<and> (serverTime a \<noteq> None \<longrightarrow> nextIntervalMs (startTimeSync (attempts @ [a])) = 30000)
   \<and> (serverTime a = None \<and> \<not> (attempts = [] \<and> throws a) \<longrightarrow>
        nextIntervalMs (startTimeSync (attempts @ [a]))
          = min (nextIntervalMs (startTimeSync attempts) + 15000) 180000
      \<and> syncRejected (sync (attempts = []) a (startTimeSync attempts)) = None)
   \<and> (serverTime a = None \<and> attempts = [] \<and> throws a \<longrightarrow>
        startTimeSync (attempts @ [a]) = startTimeSync attempts
      \<and> nextIntervalMs (startTimeSync (attempts @ [a])) = 30000
      \<and> syncRejected (sync (attempts = []) a (startTimeSync attempts))
          = Some (newError ''Helles startup connection health check failed'')
      \<and> timerDelay (sync (attempts = []) a (startTimeSync attempts)) = 30000)
   \<and> (serverTime a = None \<longrightarrow>
        nextIntervalMs (startTimeSync attempts)
          \<le> nextIntervalMs (startTimeSync (attempts @ [a])))"
proof -
  have b: "30000 \<le> nextIntervalMs (startTimeSync attempts)"
          "nextIntervalMs (startTimeSync attempts) \<le> 180000"
    using startTimeSync_bounds[of attempts] by simp_all
  have n: "startTimeSync (attempts @ [a])
       = timeSyncAfter (sync (attempts = []) a (startTimeSync attempts))"
    by (rule startTimeSync_snoc)
  have s: "serverTime a \<noteq> None \<longrightarrow> nextIntervalMs (startTimeSync (attempts @ [a])) = 30000"
    by (auto simp: startTimeSync_snoc sync_success)
  have f: "serverTime a = None \<Longrightarrow> startTimeSync (attempts @ [a]) =
        (if attempts = [] \<and> throws a then startTimeSync attempts
         else incrementBackoff (startTimeSync attempts))"
    by (simp add: startTimeSync_snoc sync_failure)
  have i: "attempts = [] \<Longrightarrow> nextIntervalMs (startTimeSync attempts) = 30000"
    by (simp add: startTimeSync_def initialTimeSync_def BASE_SYNC_INTERVAL_MS_def)
  have d: "attempts = [] \<and> throws a \<Longrightarrow>
        timerDelay (sync (attempts = []) a (startTimeSync attempts)) = 30000"
    using i by (auto simp: sync_def sync_try_def throws_def
          split: net.splits parsed.splits sum.splits)
  have step: "serverTime a = None \<and> \<not> (attempts = [] \<and> throws a) \<longrightarrow>
        nextIntervalMs (startTimeSync (attempts @ [a]))
          = min (nextIntervalMs (startTimeSync attempts) + 15000) 180000
      \<and> syncRejected (sync (attempts = []) a (startTimeSync attempts)) = None"
    using f by (simp add: incrementBackoff_frame sync_rejected)
  have thrown: "serverTime a = None \<and> attempts = [] \<and> throws a \<longrightarrow>
        startTimeSync (attempts @ [a]) = startTimeSync attempts
      \<and> nextIntervalMs (startTimeSync (attempts @ [a])) = 30000
      \<and> syncRejected (sync (attempts = []) a (startTimeSync attempts))
          = Some (newError ''Helles startup connection health check failed'')
      \<and> timerDelay (sync (attempts = []) a (startTimeSync attempts)) = 30000"
  proof
    assume h: "serverTime a = None \<and> attempts = [] \<and> throws a"
    then have none: "serverTime a = None" and e: "attempts = []" and t: "throws a"
      by simp_all
    have same: "startTimeSync (attempts @ [a]) = startTimeSync attempts"
      using f[OF none] e t by simp
    have "syncRejected (sync (attempts = []) a (startTimeSync attempts))
          = Some (newError ''Helles startup connection health check failed'')"
      using e t by (simp add: sync_rejected)
    then show "startTimeSync (attempts @ [a]) = startTimeSync attempts
      \<and> nextIntervalMs (startTimeSync (attempts @ [a])) = 30000
      \<and> syncRejected (sync (attempts = []) a (startTimeSync attempts))
          = Some (newError ''Helles startup connection health check failed'')
      \<and> timerDelay (sync (attempts = []) a (startTimeSync attempts)) = 30000"
      using same i[OF e] d e t by simp
  qed
  have mono: "serverTime a = None \<longrightarrow>
        nextIntervalMs (startTimeSync attempts)
          \<le> nextIntervalMs (startTimeSync (attempts @ [a]))"
    using f b by (simp add: incrementBackoff_frame)
  show ?thesis
    using b n s step thrown mono by (intro conjI)
qed

theorem nextIntervalMs_reachable_witness:
  "nextIntervalMs (startTimeSync
      [\<lparr>sendTime = 1700000000000, receiveTime = 1700000000050, reply = timeReply 1700000000100\<rparr>])
     = 30000
   \<and> serverTime \<lparr>sendTime = 1700000030050, receiveTime = 1700000030060, reply = refused\<rparr> = None
   \<and> nextIntervalMs (startTimeSync
      [\<lparr>sendTime = 1700000000000, receiveTime = 1700000000050, reply = timeReply 1700000000100\<rparr>,
       \<lparr>sendTime = 1700000030050, receiveTime = 1700000030060, reply = refused\<rparr>])
     = 45000
   \<and> syncRejected (sync False
        \<lparr>sendTime = 1700000030050, receiveTime = 1700000030060, reply = refused\<rparr>
        (startTimeSync [\<lparr>sendTime = 1700000000000, receiveTime = 1700000000050,
                         reply = timeReply 1700000000100\<rparr>])) = None
   \<and> throws \<lparr>sendTime = 1700000030050, receiveTime = 1700000030060, reply = refused\<rparr>
   \<and> startTimeSync [\<lparr>sendTime = 1700000030050, receiveTime = 1700000030060, reply = refused\<rparr>]
       = startTimeSync []
   \<and> syncRejected (sync True
        \<lparr>sendTime = 1700000030050, receiveTime = 1700000030060, reply = refused\<rparr>
        (startTimeSync []))
       = Some (newError ''Helles startup connection health check failed'')"
proof -
  let ?ok = "\<lparr>sendTime = 1700000000000, receiveTime = 1700000000050,
              reply = timeReply 1700000000100\<rparr>"
  let ?bad = "\<lparr>sendTime = 1700000030050, receiveTime = 1700000030060, reply = refused\<rparr>"
  have ok: "serverTime ?ok \<noteq> None" and bad: "serverTime ?bad = None" and thr: "throws ?bad"
    by (simp_all add: sync_eval)
  note success = nextIntervalMs_reachable[THEN conjunct2, THEN conjunct2, THEN conjunct2,
      THEN conjunct1]
  note failure = nextIntervalMs_reachable[THEN conjunct2, THEN conjunct2, THEN conjunct2,
      THEN conjunct2, THEN conjunct1]
  note startup = nextIntervalMs_reachable[THEN conjunct2, THEN conjunct2, THEN conjunct2,
      THEN conjunct2, THEN conjunct2, THEN conjunct1]
  have first: "nextIntervalMs (startTimeSync [?ok]) = 30000"
    using success[of ?ok "[]"] ok by simp
  have later: "nextIntervalMs (startTimeSync ([?ok] @ [?bad]))
          = min (nextIntervalMs (startTimeSync [?ok]) + 15000) 180000
      \<and> syncRejected (sync ([?ok] = []) ?bad (startTimeSync [?ok])) = None"
    using failure[of ?bad "[?ok]"] bad by simp
  then have second: "nextIntervalMs (startTimeSync [?ok, ?bad]) = 45000"
    and quiet: "syncRejected (sync False ?bad (startTimeSync [?ok])) = None"
    using first by simp_all
  have third: "startTimeSync [?bad] = startTimeSync []"
    and loud: "syncRejected (sync True ?bad (startTimeSync []))
          = Some (newError ''Helles startup connection health check failed'')"
    using startup[of ?bad "[]"] bad thr by simp_all
  show ?thesis
    using first bad second quiet thr third loud by simp
qed

text \<open>
  C9. Let an attempt succeed and let any number of failed attempts follow it. Then
  \<open>latency\<close>, \<open>offset\<close> and \<open>lastCheck\<close> are those that the success stored: the state differs
  from the state right after the success in \<open>nextIntervalMs\<close> at most, and the offset is
  still the one computed from that success.
\<close>

theorem failed_sync_keeps_last_success:
  assumes "serverTime s = Some t" and "\<forall>a\<in>set failures. serverTime a = None"
  shows "latency (startTimeSync (earlier @ s # failures))
           = latency (startTimeSync (earlier @ [s]))
       \<and> offset (startTimeSync (earlier @ s # failures))
           = offset (startTimeSync (earlier @ [s]))
       \<and> lastCheck (startTimeSync (earlier @ s # failures))
           = lastCheck (startTimeSync (earlier @ [s]))
       \<and> startTimeSync (earlier @ s # failures)
           = (startTimeSync (earlier @ [s]))
               \<lparr>nextIntervalMs := nextIntervalMs (startTimeSync (earlier @ s # failures))\<rparr>
       \<and> offset (startTimeSync (earlier @ s # failures))
           = t - (rat_of_int (receiveTime s)
                  - (rat_of_int (receiveTime s) - rat_of_int (sendTime s)) / 2)"
proof -
  have split: "startTimeSync (earlier @ s # failures)
                 = syncLoop False (startTimeSync (earlier @ [s])) failures"
    using syncLoop_append[of True initialTimeSync "earlier @ [s]" failures]
    by (simp add: startTimeSync_def)
  have frame: "syncLoop False (startTimeSync (earlier @ [s])) failures
                 = (startTimeSync (earlier @ [s]))
                     \<lparr>nextIntervalMs :=
                        nextIntervalMs (syncLoop False (startTimeSync (earlier @ [s])) failures)\<rparr>"
    by (rule syncLoop_failures[OF assms(2)])
  have last: "offset (startTimeSync (earlier @ [s]))
           = t - (rat_of_int (receiveTime s)
                  - (rat_of_int (receiveTime s) - rat_of_int (sendTime s)) / 2)"
    by (simp add: startTimeSync_snoc sync_success[OF assms(1)])
  have fields:
     "latency (startTimeSync (earlier @ s # failures)) = latency (startTimeSync (earlier @ [s]))"
     "offset (startTimeSync (earlier @ s # failures)) = offset (startTimeSync (earlier @ [s]))"
     "lastCheck (startTimeSync (earlier @ s # failures))
        = lastCheck (startTimeSync (earlier @ [s]))"
    unfolding split by (subst frame, simp)+
  show ?thesis
    using fields last frame by (simp add: split)
qed

theorem failed_sync_keeps_last_success_witness:
  "serverTime \<lparr>sendTime = 1700000000000, receiveTime = 1700000000050,
                reply = timeReply 1700000000100\<rparr> = Some 1700000000100
   \<and> serverTime \<lparr>sendTime = 1700000030050, receiveTime = 1700000030060, reply = refused\<rparr> = None
   \<and> serverTime \<lparr>sendTime = 1700000075060, receiveTime = 1700000075080,
                  reply = Responds \<lparr>statusCode = 500, body = Parsed (JObj [])\<rparr>\<rparr> = None
   \<and> startTimeSync
       [\<lparr>sendTime = 1700000000000, receiveTime = 1700000000050, reply = timeReply 1700000000100\<rparr>,
        \<lparr>sendTime = 1700000030050, receiveTime = 1700000030060, reply = refused\<rparr>,
        \<lparr>sendTime = 1700000075060, receiveTime = 1700000075080,
         reply = Responds \<lparr>statusCode = 500, body = Parsed (JObj [])\<rparr>\<rparr>]
     = \<lparr>latency = Some 25, offset = 75, lastCheck = Some 1700000000050, nextIntervalMs = 60000\<rparr>"
proof -
  let ?ok = "\<lparr>sendTime = 1700000000000, receiveTime = 1700000000050,
              reply = timeReply 1700000000100\<rparr>"
  let ?f1 = "\<lparr>sendTime = 1700000030050, receiveTime = 1700000030060, reply = refused\<rparr>"
  let ?f2 = "\<lparr>sendTime = 1700000075060, receiveTime = 1700000075080,
              reply = Responds \<lparr>statusCode = 500, body = Parsed (JObj [])\<rparr>\<rparr>"
  have ok: "serverTime ?ok = Some 1700000000100"
    and f1: "serverTime ?f1 = None" and f2: "serverTime ?f2 = None"
    by (simp_all add: sync_eval)
  have fails: "\<forall>a\<in>set [?f1, ?f2]. serverTime a = None"
    using f1 f2 by simp
  have synced: "startTimeSync ([] @ [?ok])
      = \<lparr>latency = Some 25, offset = 75, lastCheck = Some 1700000000050, nextIntervalMs = 30000\<rparr>"
    by (simp add: sync_eval)
  have interval: "nextIntervalMs (startTimeSync ([] @ ?ok # [?f1, ?f2])) = 60000"
    by (simp add: sync_eval)
  have "startTimeSync ([] @ ?ok # [?f1, ?f2])
      = \<lparr>latency = Some 25, offset = 75, lastCheck = Some 1700000000050, nextIntervalMs = 60000\<rparr>"
    using failed_sync_keeps_last_success[OF ok fails, of "[]"]
    unfolding synced interval by simp
  then show ?thesis
    using ok f1 f2 by simp
qed

section \<open>Properties of the client\<close>

lemma isRegisterTraceErr_newError:
  "isRegisterTraceErr (newError (''registerTrace err: '' @ details))"
  by (simp add: isRegisterTraceErr_def newError_def prefix_imp_sublist)

lemmas isRegisterTraceErr_newError' = isRegisterTraceErr_newError[simplified]

lemma registerTrace_cached:
  "k \<in> registeredTraces c \<Longrightarrow> registerTrace js rep c k = (None, c, [])"
  by (simp add: registerTrace_def)

lemma registerTrace_accepted:
  "k \<notin> registeredTraces c \<Longrightarrow> accepted rep \<Longrightarrow>
   registerTrace js rep c k
     = (None, c\<lparr>registeredTraces := insert k (registeredTraces c)\<rparr>, [registerCall c k])"
  by (auto simp: registerTrace_def accepted_def registerCall_def Let_def split: net.splits)

lemma registerTrace_refused:
  "k \<notin> registeredTraces c \<Longrightarrow> \<not> accepted rep \<Longrightarrow>
   \<exists>error. isRegisterTraceErr error
     \<and> registerTrace js rep c k = (Some error, c, [registerCall c k])"
  by (auto simp: registerTrace_def accepted_def registerCall_def Let_def
        isRegisterTraceErr_newError' split: net.splits)

lemma postEvent_effects: "snd (postEvent js rep host pl) = [Post (host @ ''/events'') pl]"
  by (auto simp: postEvent_def Let_def split: net.splits sum.splits parsed.splits)

lemma try_out_of_range:
  assumes "\<not> inWindow (effectiveTimestamp w c p)"
  shows "result (logTraceEvent_try js w c st p) = Inl (outOfRange js (effectiveTimestamp w c p))
       \<and> effects (logTraceEvent_try js w c st p) = []
       \<and> clientAfter (logTraceEvent_try js w c st p) = c"
  using assms by (auto simp: logTraceEvent_try_def inWindow_def outOfRange_def Let_def)

lemma try_no_sender:
  assumes "inWindow (effectiveTimestamp w c p)" and "effectiveSender c p = None"
  shows "result (logTraceEvent_try js w c st p) = Inl (newError ''eventSender is required'')
       \<and> effects (logTraceEvent_try js w c st p) = []
       \<and> clientAfter (logTraceEvent_try js w c st p) = c"
  using assms by (auto simp: logTraceEvent_try_def inWindow_def Let_def)

lemma try_cached:
  assumes "inWindow (effectiveTimestamp w c p)" and "effectiveSender c p = Some s"
    and "applyTraceSuffix c (traceKey p) \<in> registeredTraces c"
  shows "effects (logTraceEvent_try js w c st p) = [eventCall w c st p s]
       \<and> clientAfter (logTraceEvent_try js w c st p) = c"
  using assms
  by (simp add: logTraceEvent_try_def inWindow_def Let_def registerTrace_cached eventCall_def
        case_prod_beta postEvent_effects not_less not_le)

lemma try_accepted:
  assumes "inWindow (effectiveTimestamp w c p)" and "effectiveSender c p = Some s"
    and "applyTraceSuffix c (traceKey p) \<notin> registeredTraces c"
    and "accepted (registerReply w)"
  shows "effects (logTraceEvent_try js w c st p)
           = [registerCall c (applyTraceSuffix c (traceKey p)), eventCall w c st p s]
       \<and> clientAfter (logTraceEvent_try js w c st p)
           = c\<lparr>registeredTraces := insert (applyTraceSuffix c (traceKey p)) (registeredTraces c)\<rparr>"
  using assms
  by (simp add: logTraceEvent_try_def inWindow_def Let_def registerTrace_accepted eventCall_def
        case_prod_beta postEvent_effects not_less not_le applyTraceSuffix_def
        effectiveTimestamp_def now_def)

lemma try_refused:
  assumes "inWindow (effectiveTimestamp w c p)" and "effectiveSender c p = Some s"
    and "applyTraceSuffix c (traceKey p) \<notin> registeredTraces c"
    and "\<not> accepted (registerReply w)"
  shows "effects (logTraceEvent_try js w c st p)
           = [registerCall c (applyTraceSuffix c (traceKey p))]
       \<and> clientAfter (logTraceEvent_try js w c st p) = c
       \<and> (\<exists>error. isRegisterTraceErr error
             \<and> result (logTraceEvent_try js w c st p) = Inl error)"
proof -
  obtain error where e: "isRegisterTraceErr error"
     "registerTrace js (registerReply w) c (applyTraceSuffix c (traceKey p))
        = (Some error, c, [registerCall c (applyTraceSuffix c (traceKey p))])"
    using registerTrace_refused[OF assms(3,4)] by blast
  show ?thesis
    using assms(1,2) e by (auto simp: logTraceEvent_try_def inWindow_def Let_def)
qed

lemma try_store:
  "storeAfter (logTraceEvent_try js w c st p)
     = (case eventAttributes p of
          Some r \<Rightarrow> st(r := injectOverrides p (st r))
        | None \<Rightarrow> st)"
  by (auto simp: logTraceEvent_try_def Let_def case_prod_beta split: option.splits)

lemma try_client:
  "\<exists>cache. clientAfter (logTraceEvent_try js w c st p) = c\<lparr>registeredTraces := cache\<rparr>"
proof (cases "inWindow (effectiveTimestamp w c p)")
  case False
  then have "clientAfter (logTraceEvent_try js w c st p) = c\<lparr>registeredTraces := registeredTraces c\<rparr>"
    by (simp add: try_out_of_range)
  then show ?thesis by blast
next
  case True
  show ?thesis
  proof (cases "effectiveSender c p")
    case None
    then have "clientAfter (logTraceEvent_try js w c st p) = c\<lparr>registeredTraces := registeredTraces c\<rparr>"
      using True by (simp add: try_no_sender)
    then show ?thesis by blast
  next
    case (Some s)
    consider "applyTraceSuffix c (traceKey p) \<in> registeredTraces c"
      | "applyTraceSuffix c (traceKey p) \<notin> registeredTraces c" "accepted (registerReply w)"
      | "applyTraceSuffix c (traceKey p) \<notin> registeredTraces c" "\<not> accepted (registerReply w)"
      by blast
    then show ?thesis
    proof cases
      case 1
      then have "clientAfter (logTraceEvent_try js w c st p) = c\<lparr>registeredTraces := registeredTraces c\<rparr>"
        using True Some by (simp add: try_cached)
      then show ?thesis by blast
    next
      case 2
      then show ?thesis using try_accepted[OF True Some 2] by blast
    next
      case 3
      then have "clientAfter (logTraceEvent_try js w c st p) = c\<lparr>registeredTraces := registeredTraces c\<rparr>"
        using try_refused[OF True Some 3] by simp
      then show ?thesis by blast
    qed
  qed
qed

lemma try_defaults: "defaults (clientAfter (logTraceEvent_try js w c st p)) = defaults c"
  using try_client[of js w c st p] by auto

lemma logTraceEvent_after:
  "clientAfter (logTraceEvent js w c st p) = clientAfter (logTraceEvent_try js w c st p)"
  "storeAfter (logTraceEvent js w c st p) = storeAfter (logTraceEvent_try js w c st p)"
  by (simp_all add: logTraceEvent_def Let_def case_prod_beta split: sum.splits)

lemma routeError_no_post:
  "filter isPost (snd (routeError h c error)) = []"
  "filter isRegistrationCall (snd (routeError h c error)) = []"
  "filter isEventCall (snd (routeError h c error)) = []"
  by (auto simp: routeError_def split: option.splits)

lemma logTraceEvent_posts:
  "filter isPost (effects (logTraceEvent js w c st p))
     = filter isPost (effects (logTraceEvent_try js w c st p))"
  "filter isRegistrationCall (effects (logTraceEvent js w c st p))
     = filter isRegistrationCall (effects (logTraceEvent_try js w c st p))"
  "filter isEventCall (effects (logTraceEvent js w c st p))
     = filter isEventCall (effects (logTraceEvent_try js w c st p))"
  by (simp_all add: logTraceEvent_def Let_def case_prod_beta routeError_no_post split: sum.splits)

lemma validation_cache_independent:
  "effectiveTimestamp w (c\<lparr>registeredTraces := cache\<rparr>) p = effectiveTimestamp w c p"
  "effectiveSender (c\<lparr>registeredTraces := cache\<rparr>) p = effectiveSender c p"
  "applyTraceSuffix (c\<lparr>registeredTraces := cache\<rparr>) k = applyTraceSuffix c k"
  "registerCall (c\<lparr>registeredTraces := cache\<rparr>) k = registerCall c k"
  by (simp_all add: effectiveTimestamp_def effectiveSender_def applyTraceSuffix_def now_def
        registerCall_def split: option.splits)

lemma call_kinds [simp]:
  "isRegistrationCall (registerCall c k)" "\<not> isEventCall (registerCall c k)"
  "isPost (registerCall c k)"
  "isEventCall (eventCall w c st p s)" "\<not> isRegistrationCall (eventCall w c st p s)"
  "isPost (eventCall w c st p s)"
  by (simp_all add: registerCall_def eventCall_def)

lemma try_effects_shape:
  "set (effects (logTraceEvent_try js w c st p))
     \<subseteq> insert (registerCall c (applyTraceSuffix c (traceKey p)))
         (case effectiveSender c p of Some s \<Rightarrow> {eventCall w c st p s} | None \<Rightarrow> {})"
proof (cases "inWindow (effectiveTimestamp w c p)")
  case False
  then show ?thesis by (simp add: try_out_of_range)
next
  case True
  show ?thesis
  proof (cases "effectiveSender c p")
    case None
    then show ?thesis using True by (simp add: try_no_sender)
  next
    case (Some s)
    consider "applyTraceSuffix c (traceKey p) \<in> registeredTraces c"
      | "applyTraceSuffix c (traceKey p) \<notin> registeredTraces c" "accepted (registerReply w)"
      | "applyTraceSuffix c (traceKey p) \<notin> registeredTraces c" "\<not> accepted (registerReply w)"
      by blast
    then show ?thesis
    proof cases
      case 1
      then show ?thesis using try_cached[OF True Some 1, of js st] Some by simp
    next
      case 2
      then show ?thesis using try_accepted[OF True Some 2, of js st] Some by simp
    next
      case 3
      then show ?thesis using try_refused[OF True Some 3, of js st] Some by simp
    qed
  qed
qed

lemma try_effects_posts: "filter (\<lambda>e. \<not> isPost e) (effects (logTraceEvent_try js w c st p)) = []"
proof -
  have "\<forall>e\<in>set (effects (logTraceEvent_try js w c st p)). isPost e"
    using try_effects_shape[of js w c st p] by (auto split: option.splits)
  then show ?thesis by (simp add: filter_empty_conv)
qed

lemma event_calls_shape:
  assumes "e \<in> set (effects (logTraceEvent js w c st p))" and "isEventCall e"
  shows "\<exists>s. effectiveSender c p = Some s \<and> e = eventCall w c st p s"
proof -
  have "e \<in> set (filter isEventCall (effects (logTraceEvent js w c st p)))"
    using assms by simp
  then have "e \<in> set (effects (logTraceEvent_try js w c st p))"
    by (simp add: logTraceEvent_posts)
  then show ?thesis
    using try_effects_shape[of js w c st p] assms(2) by (auto split: option.splits)
qed

lemma settle_cases: "settle r \<noteq> Resolved (Some b)"
  by (simp add: settle_def split: option.splits)

lemma routeError_not_value: "fst (routeError h c error) \<noteq> Resolved (Some b)"
  by (simp add: routeError_def settle_cases split: option.splits)

lemma deleteTrace_value:
  "result (deleteTrace js rep c p) = Resolved (Some b)
     \<longleftrightarrow> result (deleteTrace_try js rep c p) = Inr b"
  by (simp add: deleteTrace_def Let_def case_prod_beta routeError_not_value split: sum.splits)

lemma logTraceEvent_value:
  "result (logTraceEvent js w c st p) = Resolved (Some b)
     \<longleftrightarrow> result (logTraceEvent_try js w c st p) = Inr b"
  by (simp add: logTraceEvent_def Let_def case_prod_beta routeError_not_value split: sum.splits)

lemma deleteTrace_after:
  "clientAfter (deleteTrace js rep c p) = clientAfter (deleteTrace_try js rep c p)"
  by (simp add: deleteTrace_def Let_def case_prod_beta split: sum.splits)

lemma deleteTrace_try_returns:
  assumes "result (deleteTrace_try js rep c p) = Inr b"
  shows "registeredTraces (clientAfter (deleteTrace_try js rep c p))
           = registeredTraces c - {toUpperCase js (applyTraceSuffix c (traceKey p))}
       \<and> accepted rep
       \<and> (\<exists>key. apiKey c = Some key \<and> key \<noteq> []
            \<and> effects (deleteTrace_try js rep c p)
                = [Post (hellesHost c @ ''/traces/delete'')
                     (DeletePayload key (toUpperCase js (applyTraceSuffix c (traceKey p))))])"
  using assms
  by (auto simp: deleteTrace_try_def accepted_def Let_def
        split: option.splits if_splits net.splits parsed.splits)

lemma deleteTrace_try_value:
  "result (deleteTrace_try js rep c q) = Inr b
     \<longleftrightarrow> (\<exists>key response. apiKey c = Some key \<and> key \<noteq> [] \<and> traceKey q \<noteq> []
            \<and> rep = Responds response \<and> statusCode response < 400
            \<and> body response = Parsed b)"
  by (auto simp: deleteTrace_try_def Let_def
        split: option.splits if_splits net.splits parsed.splits)

lemma deleteTrace_try_defaults:
  "defaults (clientAfter (deleteTrace_try js rep c p)) = defaults c"
  by (auto simp: deleteTrace_try_def Let_def
        split: option.splits if_splits net.splits parsed.splits)

lemmas client_eval = logTraceEvent_def logTraceEvent_try_def registerTrace_def postEvent_def
  routeError_def settle_def injectOverrides_def effectiveTimestamp_def effectiveSender_def
  applyTraceSuffix_def now_def statusError_def rewrap_def errorDetailsOf_def jsonOrEmpty_def
  stringProp_def messageOrString_def isRegisterTraceErr_def newError_def wf_stringify_def
  deleteTrace_def deleteTrace_try_def newHellesClient_def initialTimeSync_def
  accepted_def inWindow_def passesValidation_def registerCall_def eventCall_def outOfRange_def
  demoJs_def demoClient_def demoDefaults_def demoParams_def demoStore_def demoWorld_def
  okReply_def serverError_def refused_def absorb_def upperChar_def Let_def

lemma demoRun1_eval:
  "result demoRun1 = Resolved (Some (JObj [(''id'', JNum 1)]))"
  "effects demoRun1 =
     [Post ''https://helles.example/traces''
        (RegisterPayload ''deposit_1234567_dev'' ''TRACE'' ''deposit_1234567_dev''),
      Post ''https://helles.example/events''
        (PostPayload ''deposit_1234567_dev'' ''NOTE'' (Some ''Deposit initiated'')
           [''amount'' \<mapsto> JNum 1000] ''my-service'' 1700000000000 None)]"
  "registeredTraces (clientAfter demoRun1) = {''deposit_1234567_dev''}"
  "clientAfter demoRun1 = demoClient\<lparr>registeredTraces := {''deposit_1234567_dev''}\<rparr>"
  "storeAfter demoRun1 = demoStore"
  by (simp_all add: demoRun1_def client_eval fun_eq_iff)

lemma bothCached_eval:
  "bothCached = plainClient\<lparr>registeredTraces := {''deposit_1'', ''DEPOSIT_1''}\<rparr>"
  by (simp add: bothCached_def plainClient_def client_eval)

text \<open>
  C3, as the claim states it, fails when the second call does not pass validation: after
  a first call that registered the trace, a second call for the same key with the
  timestamp 1 is rejected before any request, so the pair issues one registration and
  one event submission, not two.
\<close>

theorem second_call_invalid_counterexample:
  "applyTraceSuffix demoClient (traceKey (demoParams\<lparr>eventTimestampUtc := Some 1\<rparr>))
     = applyTraceSuffix demoClient (traceKey demoParams)
   \<and> filter isRegistrationCall (effects demoRun1)
       = [registerCall demoClient (applyTraceSuffix demoClient (traceKey demoParams))]
   \<and> applyTraceSuffix demoClient (traceKey demoParams) \<in> registeredTraces (clientAfter demoRun1)
   \<and> length (filter isRegistrationCall
        (effects demoRun1
         @ effects (logTraceEvent demoJs demoWorld (clientAfter demoRun1) (storeAfter demoRun1)
                      (demoParams\<lparr>eventTimestampUtc := Some 1\<rparr>)))) = 1
   \<and> length (filter isEventCall
        (effects demoRun1
         @ effects (logTraceEvent demoJs demoWorld (clientAfter demoRun1) (storeAfter demoRun1)
                      (demoParams\<lparr>eventTimestampUtc := Some 1\<rparr>)))) = 1"
  by (simp add: demoRun1_eval) (simp add: client_eval)

text \<open>
  C3, amended. Take two calls of \<^verbatim>\<open>logTraceEvent\<close> in sequence with the same
  fully-qualified key, not cached before the first, both passing validation (timestamp
  in the window, a sender resolved). If the registration request of the first is accepted,
  the two calls issue exactly one registration and two event submissions. If it is not
  accepted (a rejection, or a status of 400 or more), the first call fails with an error
  whose message carries \<^verbatim>\<open>registerTrace err:\<close>, issues the registration request only,
  leaves the cache as it was, and the second call issues the registration request again.
\<close>

theorem registration_once:
  fixes p1 :: "'a logParams_scheme" and p2 :: "'b logParams_scheme"
  assumes same: "applyTraceSuffix c (traceKey p2) = applyTraceSuffix c (traceKey p1)"
    and fresh: "applyTraceSuffix c (traceKey p1) \<notin> registeredTraces c"
    and v1: "passesValidation w1 c p1"
    and v2: "passesValidation w2 c p2"
  shows
    "(accepted (registerReply w1) \<longrightarrow>
        length (filter isRegistrationCall
          (effects (logTraceEvent js w1 c st p1)
           @ effects (logTraceEvent js w2 (clientAfter (logTraceEvent js w1 c st p1))
                        (storeAfter (logTraceEvent js w1 c st p1)) p2))) = 1
      \<and> length (filter isEventCall
          (effects (logTraceEvent js w1 c st p1)
           @ effects (logTraceEvent js w2 (clientAfter (logTraceEvent js w1 c st p1))
                        (storeAfter (logTraceEvent js w1 c st p1)) p2))) = 2)
     \<and> (\<not> accepted (registerReply w1) \<longrightarrow>
        (\<exists>error. isRegisterTraceErr error
            \<and> result (logTraceEvent_try js w1 c st p1) = Inl error)
      \<and> registeredTraces (clientAfter (logTraceEvent js w1 c st p1)) = registeredTraces c
      \<and> filter isPost (effects (logTraceEvent js w1 c st p1))
          = [registerCall c (applyTraceSuffix c (traceKey p1))]
      \<and> (\<exists>rest. filter isPost
            (effects (logTraceEvent js w2 (clientAfter (logTraceEvent js w1 c st p1))
                        (storeAfter (logTraceEvent js w1 c st p1)) p2))
          = registerCall c (applyTraceSuffix c (traceKey p1)) # rest))"
proof -
  let ?k = "applyTraceSuffix c (traceKey p1)"
  let ?c1 = "clientAfter (logTraceEvent js w1 c st p1)"
  let ?st1 = "storeAfter (logTraceEvent js w1 c st p1)"
  obtain s1 where s1: "effectiveSender c p1 = Some s1" and t1: "inWindow (effectiveTimestamp w1 c p1)"
    using v1 by (auto simp: passesValidation_def)
  obtain s2 where s2: "effectiveSender c p2 = Some s2" and t2: "inWindow (effectiveTimestamp w2 c p2)"
    using v2 by (auto simp: passesValidation_def)
  have first: "accepted (registerReply w1) \<longrightarrow>
        length (filter isRegistrationCall
          (effects (logTraceEvent js w1 c st p1) @ effects (logTraceEvent js w2 ?c1 ?st1 p2))) = 1
      \<and> length (filter isEventCall
          (effects (logTraceEvent js w1 c st p1) @ effects (logTraceEvent js w2 ?c1 ?st1 p2))) = 2"
  proof
    assume acc: "accepted (registerReply w1)"
    have e1: "effects (logTraceEvent_try js w1 c st p1) = [registerCall c ?k, eventCall w1 c st p1 s1]"
      and c1: "?c1 = c\<lparr>registeredTraces := insert ?k (registeredTraces c)\<rparr>"
      using try_accepted[OF t1 s1 fresh acc] by (simp_all add: logTraceEvent_after)
    have t2': "inWindow (effectiveTimestamp w2 ?c1 p2)"
      and s2': "effectiveSender ?c1 p2 = Some s2"
      and k2: "applyTraceSuffix ?c1 (traceKey p2) \<in> registeredTraces ?c1"
      using t2 s2 same by (simp_all add: c1 validation_cache_independent)
    have e2: "effects (logTraceEvent_try js w2 ?c1 ?st1 p2) = [eventCall w2 ?c1 ?st1 p2 s2]"
      using try_cached[OF t2' s2' k2] by simp
    show "length (filter isRegistrationCall
          (effects (logTraceEvent js w1 c st p1) @ effects (logTraceEvent js w2 ?c1 ?st1 p2))) = 1
      \<and> length (filter isEventCall
          (effects (logTraceEvent js w1 c st p1) @ effects (logTraceEvent js w2 ?c1 ?st1 p2))) = 2"
      by (simp add: logTraceEvent_posts e1 e2)
  qed
  have second: "\<not> accepted (registerReply w1) \<longrightarrow>
        (\<exists>error. isRegisterTraceErr error
            \<and> result (logTraceEvent_try js w1 c st p1) = Inl error)
      \<and> registeredTraces ?c1 = registeredTraces c
      \<and> filter isPost (effects (logTraceEvent js w1 c st p1)) = [registerCall c ?k]
      \<and> (\<exists>rest. filter isPost (effects (logTraceEvent js w2 ?c1 ?st1 p2))
          = registerCall c ?k # rest)"
  proof
    assume ref: "\<not> accepted (registerReply w1)"
    have e1: "effects (logTraceEvent_try js w1 c st p1) = [registerCall c ?k]"
      and c1: "?c1 = c"
      and err: "\<exists>error. isRegisterTraceErr error
            \<and> result (logTraceEvent_try js w1 c st p1) = Inl error"
      using try_refused[OF t1 s1 fresh ref] by (simp_all add: logTraceEvent_after)
    have fresh2: "applyTraceSuffix c (traceKey p2) \<notin> registeredTraces c"
      using fresh same by simp
    have retry: "\<exists>rest. filter isPost (effects (logTraceEvent_try js w2 c ?st1 p2))
          = registerCall c ?k # rest"
    proof (cases "accepted (registerReply w2)")
      case True
      then show ?thesis using try_accepted[OF t2 s2 fresh2 True, of js ?st1] same by simp
    next
      case False
      then show ?thesis using try_refused[OF t2 s2 fresh2 False, of js ?st1] same by simp
    qed
    show "(\<exists>error. isRegisterTraceErr error
            \<and> result (logTraceEvent_try js w1 c st p1) = Inl error)
      \<and> registeredTraces ?c1 = registeredTraces c
      \<and> filter isPost (effects (logTraceEvent js w1 c st p1)) = [registerCall c ?k]
      \<and> (\<exists>rest. filter isPost (effects (logTraceEvent js w2 ?c1 ?st1 p2))
          = registerCall c ?k # rest)"
      using err retry by (simp add: c1 logTraceEvent_posts e1)
  qed
  show ?thesis using first second by blast
qed

theorem registration_once_witness:
  "passesValidation demoWorld demoClient demoParams
   \<and> applyTraceSuffix demoClient (traceKey demoParams) \<notin> registeredTraces demoClient
   \<and> accepted (registerReply demoWorld)
   \<and> length (filter isRegistrationCall
        (effects demoRun1
         @ effects (logTraceEvent demoJs demoWorld (clientAfter demoRun1) (storeAfter demoRun1)
                      demoParams))) = 1
   \<and> length (filter isEventCall
        (effects demoRun1
         @ effects (logTraceEvent demoJs demoWorld (clientAfter demoRun1) (storeAfter demoRun1)
                      demoParams))) = 2
   \<and> \<not> accepted (registerReply (demoWorld\<lparr>registerReply := serverError\<rparr>))
   \<and> registeredTraces (clientAfter
        (logTraceEvent demoJs (demoWorld\<lparr>registerReply := serverError\<rparr>) demoClient demoStore
           demoParams)) = {}
   \<and> filter isPost (effects
        (logTraceEvent demoJs (demoWorld\<lparr>registerReply := serverError\<rparr>) demoClient demoStore
           demoParams))
      = [Post ''https://helles.example/traces''
           (RegisterPayload ''deposit_1234567_dev'' ''TRACE'' ''deposit_1234567_dev'')]"
proof -
  let ?bad = "demoWorld\<lparr>registerReply := serverError\<rparr>"
  have same: "applyTraceSuffix demoClient (traceKey demoParams)
                = applyTraceSuffix demoClient (traceKey demoParams)"
    by simp
  have fresh: "applyTraceSuffix demoClient (traceKey demoParams) \<notin> registeredTraces demoClient"
    by (simp add: client_eval)
  have valid: "passesValidation demoWorld demoClient demoParams"
    and valid': "passesValidation ?bad demoClient demoParams"
    by (simp_all add: client_eval)
  have acc: "accepted (registerReply demoWorld)" and ref: "\<not> accepted (registerReply ?bad)"
    by (simp_all add: client_eval)
  have cache: "registeredTraces demoClient = {}"
    and call: "registerCall demoClient (applyTraceSuffix demoClient (traceKey demoParams))
      = Post ''https://helles.example/traces''
           (RegisterPayload ''deposit_1234567_dev'' ''TRACE'' ''deposit_1234567_dev'')"
    by (simp_all add: client_eval)
  show ?thesis
    using registration_once[OF same fresh valid valid, of demoJs demoStore]
      registration_once[OF same fresh valid' valid, of demoJs demoStore]
      fresh valid acc ref cache call
    by (simp add: demoRun1_def)
qed

text \<open>
  C4. When the effective timestamp is below 1,665,000,000,000 or above 2,565,000,000,000
  the call fails with the out-of-range error, has issued no request and leaves the client
  as it was; without handlers the promise rejects with that error. Both bounds pass: with
  a timestamp from 1,665,000,000,000 to 2,565,000,000,000 the call goes on to the sender
  check and, when a sender is resolved, to the first request.
\<close>

theorem timestamp_window:
  "(effectiveTimestamp w c p < 1665000000000 \<or> 2565000000000 < effectiveTimestamp w c p \<longrightarrow>
       result (logTraceEvent_try js w c st p) = Inl (outOfRange js (effectiveTimestamp w c p))
     \<and> effects (logTraceEvent_try js w c st p) = []
     \<and> filter isPost (effects (logTraceEvent js w c st p)) = []
     \<and> clientAfter (logTraceEvent js w c st p) = c
     \<and> (onError p = None \<and> defaultsOnError (defaults c) = None \<longrightarrow>
          result (logTraceEvent js w c st p) = Rejected (outOfRange js (effectiveTimestamp w c p))))
   \<and> (1665000000000 \<le> effectiveTimestamp w c p \<and> effectiveTimestamp w c p \<le> 2565000000000 \<longrightarrow>
       (effectiveSender c p = None \<longrightarrow>
          result (logTraceEvent_try js w c st p) = Inl (newError ''eventSender is required''))
     \<and> (effectiveSender c p \<noteq> None \<longrightarrow>
          filter isPost (effects (logTraceEvent js w c st p)) \<noteq> []))"
proof -
  have out: "effectiveTimestamp w c p < 1665000000000 \<or> 2565000000000 < effectiveTimestamp w c p
      \<Longrightarrow> \<not> inWindow (effectiveTimestamp w c p)"
    by (auto simp: inWindow_def)
  have rej: "\<not> inWindow (effectiveTimestamp w c p) \<Longrightarrow>
       onError p = None \<Longrightarrow> defaultsOnError (defaults c) = None \<Longrightarrow>
       result (logTraceEvent js w c st p) = Rejected (outOfRange js (effectiveTimestamp w c p))"
    using try_out_of_range[of w c p js st]
    by (simp add: logTraceEvent_def Let_def routeError_def)
  have posts: "inWindow (effectiveTimestamp w c p) \<Longrightarrow> effectiveSender c p \<noteq> None \<Longrightarrow>
       filter isPost (effects (logTraceEvent_try js w c st p)) \<noteq> []"
  proof -
    assume t: "inWindow (effectiveTimestamp w c p)" and "effectiveSender c p \<noteq> None"
    then obtain s where s: "effectiveSender c p = Some s" by blast
    consider "applyTraceSuffix c (traceKey p) \<in> registeredTraces c"
      | "applyTraceSuffix c (traceKey p) \<notin> registeredTraces c" "accepted (registerReply w)"
      | "applyTraceSuffix c (traceKey p) \<notin> registeredTraces c" "\<not> accepted (registerReply w)"
      by blast
    then show ?thesis
    proof cases
      case 1
      then show ?thesis using try_cached[OF t s 1, of js st] by simp
    next
      case 2
      then show ?thesis using try_accepted[OF t s 2, of js st] by simp
    next
      case 3
      then show ?thesis using try_refused[OF t s 3, of js st] by simp
    qed
  qed
  show ?thesis
    using out rej posts try_out_of_range[of w c p js st] try_no_sender[of w c p js st]
    by (auto simp: logTraceEvent_posts logTraceEvent_after inWindow_def)
qed

theorem timestamp_window_witness:
  "result (logTraceEvent demoJs demoWorld demoClient demoStore
             (demoParams\<lparr>eventTimestampUtc := Some 1664999999999\<rparr>))
     = Rejected (newError
         ''eventTimestampUtc value 1664999999999 is out of range - expected Unix millisecond timestamp'')
   \<and> effects (logTraceEvent demoJs demoWorld demoClient demoStore
             (demoParams\<lparr>eventTimestampUtc := Some 1664999999999\<rparr>)) = []
   \<and> filter isPost (effects (logTraceEvent demoJs demoWorld demoClient demoStore
             (demoParams\<lparr>eventTimestampUtc := Some 2565000000001\<rparr>))) = []
   \<and> filter isPost (effects (logTraceEvent demoJs demoWorld demoClient demoStore
             (demoParams\<lparr>eventTimestampUtc := Some 1000000000000\<rparr>))) = []
   \<and> filter isPost (effects (logTraceEvent demoJs demoWorld demoClient demoStore
             (demoParams\<lparr>eventTimestampUtc := Some 1665000000000\<rparr>))) \<noteq> []
   \<and> filter isPost (effects (logTraceEvent demoJs demoWorld demoClient demoStore
             (demoParams\<lparr>eventTimestampUtc := Some 2565000000000\<rparr>))) \<noteq> []"
proof -
  have ts: "effectiveTimestamp demoWorld demoClient (demoParams\<lparr>eventTimestampUtc := Some t\<rparr>) = t"
    for t by (simp add: effectiveTimestamp_def)
  have snd: "effectiveSender demoClient (demoParams\<lparr>eventTimestampUtc := Some t\<rparr>) \<noteq> None"
    for t by (simp add: client_eval)
  have hs: "onError (demoParams\<lparr>eventTimestampUtc := Some t\<rparr>) = None"
     "defaultsOnError (defaults demoClient) = None" for t
    by (simp_all add: client_eval)
  have msg: "outOfRange demoJs 1664999999999 = newError
         ''eventTimestampUtc value 1664999999999 is out of range - expected Unix millisecond timestamp''"
    by (simp add: outOfRange_def demoJs_def)
  have fx: "effects (logTraceEvent demoJs demoWorld demoClient demoStore
             (demoParams\<lparr>eventTimestampUtc := Some 1664999999999\<rparr>)) = []"
    by (simp add: client_eval)
  show ?thesis
    using timestamp_window[of demoWorld demoClient "demoParams\<lparr>eventTimestampUtc := Some 1664999999999\<rparr>" demoJs demoStore]
      timestamp_window[of demoWorld demoClient "demoParams\<lparr>eventTimestampUtc := Some 2565000000001\<rparr>" demoJs demoStore]
      timestamp_window[of demoWorld demoClient "demoParams\<lparr>eventTimestampUtc := Some 1000000000000\<rparr>" demoJs demoStore]
      timestamp_window[of demoWorld demoClient "demoParams\<lparr>eventTimestampUtc := Some 1665000000000\<rparr>" demoJs demoStore]
      timestamp_window[of demoWorld demoClient "demoParams\<lparr>eventTimestampUtc := Some 2565000000000\<rparr>" demoJs demoStore]
      snd hs fx
    unfolding ts msg by simp
qed

text \<open>
  C5. Let the body of \<^verbatim>\<open>logTraceEvent\<close> or of \<^verbatim>\<open>deleteTrace\<close> raise an error. With a
  per-call handler, that handler is called with the error, and the handler of the client
  is not, whether configured or not. Without one, the handler of the client is called if
  it is configured. With neither, the promise rejects with the error. The body itself
  calls no handler.
\<close>

theorem error_routing:
  "(result (logTraceEvent_try js w c st p) = Inl error \<longrightarrow>
      filter (\<lambda>e. \<not> isPost e) (effects (logTraceEvent_try js w c st p)) = []
    \<and> (case onError p of
         Some h \<Rightarrow>
           effects (logTraceEvent js w c st p)
             = effects (logTraceEvent_try js w c st p) @ [PerCallHandler error]
           \<and> result (logTraceEvent js w c st p) = settle (h error)
       | None \<Rightarrow>
           (case defaultsOnError (defaults c) of
              Some g \<Rightarrow>
                effects (logTraceEvent js w c st p)
                  = effects (logTraceEvent_try js w c st p) @ [ClientHandler error]
                \<and> result (logTraceEvent js w c st p) = settle (g error)
            | None \<Rightarrow>
                effects (logTraceEvent js w c st p) = effects (logTraceEvent_try js w c st p)
                \<and> result (logTraceEvent js w c st p) = Rejected error)))
   \<and> (result (deleteTrace_try js rep c q) = Inl error' \<longrightarrow>
      filter (\<lambda>e. \<not> isPost e) (effects (deleteTrace_try js rep c q)) = []
    \<and> (case onError q of
         Some h \<Rightarrow>
           effects (deleteTrace js rep c q)
             = effects (deleteTrace_try js rep c q) @ [PerCallHandler error']
           \<and> result (deleteTrace js rep c q) = settle (h error')
       | None \<Rightarrow>
           (case defaultsOnError (defaults c) of
              Some g \<Rightarrow>
                effects (deleteTrace js rep c q)
                  = effects (deleteTrace_try js rep c q) @ [ClientHandler error']
                \<and> result (deleteTrace js rep c q) = settle (g error')
            | None \<Rightarrow>
                effects (deleteTrace js rep c q) = effects (deleteTrace_try js rep c q)
                \<and> result (deleteTrace js rep c q) = Rejected error')))"
proof -
  have del: "filter (\<lambda>e. \<not> isPost e) (effects (deleteTrace_try js rep c q)) = []"
    by (auto simp: deleteTrace_try_def Let_def
          split: option.splits if_splits net.splits parsed.splits)
  show ?thesis
    by (auto simp: logTraceEvent_def deleteTrace_def Let_def routeError_def try_defaults
          deleteTrace_try_defaults try_effects_posts del split: option.splits)
qed

theorem error_routing_witness:
  "result (logTraceEvent_try demoJs (demoWorld\<lparr>registerReply := refused\<rparr>) demoClient demoStore
             demoParams)
     = Inl (newError ''registerTrace err: connect ECONNREFUSED'')
   \<and> effects (logTraceEvent demoJs (demoWorld\<lparr>registerReply := refused\<rparr>)
        (demoClient\<lparr>defaults := demoDefaults\<lparr>defaultsOnError := Some rethrow\<rparr>\<rparr>) demoStore
        (demoParams\<lparr>onError := Some absorb\<rparr>))
      = [Post ''https://helles.example/traces''
           (RegisterPayload ''deposit_1234567_dev'' ''TRACE'' ''deposit_1234567_dev''),
         PerCallHandler (newError ''registerTrace err: connect ECONNREFUSED'')]
   \<and> effects (logTraceEvent demoJs (demoWorld\<lparr>registerReply := refused\<rparr>)
        (demoClient\<lparr>defaults := demoDefaults\<lparr>defaultsOnError := Some rethrow\<rparr>\<rparr>) demoStore
        demoParams)
      = [Post ''https://helles.example/traces''
           (RegisterPayload ''deposit_1234567_dev'' ''TRACE'' ''deposit_1234567_dev''),
         ClientHandler (newError ''registerTrace err: connect ECONNREFUSED'')]
   \<and> result (logTraceEvent demoJs (demoWorld\<lparr>registerReply := refused\<rparr>) demoClient demoStore
        demoParams)
      = Rejected (newError ''registerTrace err: connect ECONNREFUSED'')
   \<and> result (deleteTrace_try demoJs serverError (demoClient\<lparr>apiKey := None\<rparr>)
        \<lparr>traceKey = ''deposit_1234567'', onError = Some absorb\<rparr>)
      = Inl (newError ''API key is required for deleteTrace'')
   \<and> effects (deleteTrace demoJs serverError (demoClient\<lparr>apiKey := None\<rparr>)
        \<lparr>traceKey = ''deposit_1234567'', onError = Some absorb\<rparr>)
      = [PerCallHandler (newError ''API key is required for deleteTrace'')]"
proof -
  let ?w = "demoWorld\<lparr>registerReply := refused\<rparr>"
  let ?c = "demoClient\<lparr>defaults := demoDefaults\<lparr>defaultsOnError := Some rethrow\<rparr>\<rparr>"
  let ?e = "newError ''registerTrace err: connect ECONNREFUSED''"
  let ?d = "newError ''API key is required for deleteTrace''"
  let ?q = "\<lparr>traceKey = ''deposit_1234567'', onError = Some absorb\<rparr>"
  have t1: "result (logTraceEvent_try demoJs ?w demoClient demoStore demoParams) = Inl ?e"
    and t2: "result (logTraceEvent_try demoJs ?w ?c demoStore (demoParams\<lparr>onError := Some absorb\<rparr>))
               = Inl ?e"
    and t3: "result (logTraceEvent_try demoJs ?w ?c demoStore demoParams) = Inl ?e"
    and t4: "result (deleteTrace_try demoJs serverError (demoClient\<lparr>apiKey := None\<rparr>) ?q) = Inl ?d"
    by (simp_all add: client_eval sublist_Cons_right)
  have fx: "effects (logTraceEvent_try demoJs ?w ?c demoStore (demoParams\<lparr>onError := Some absorb\<rparr>))
      = [Post ''https://helles.example/traces''
           (RegisterPayload ''deposit_1234567_dev'' ''TRACE'' ''deposit_1234567_dev'')]"
    "effects (logTraceEvent_try demoJs ?w ?c demoStore demoParams)
      = [Post ''https://helles.example/traces''
           (RegisterPayload ''deposit_1234567_dev'' ''TRACE'' ''deposit_1234567_dev'')]"
    "effects (deleteTrace_try demoJs serverError (demoClient\<lparr>apiKey := None\<rparr>) ?q) = []"
    by (simp_all add: client_eval sublist_Cons_right)
  have hs: "onError (demoParams\<lparr>onError := Some absorb\<rparr>) = Some absorb"
    "onError demoParams = None" "defaultsOnError (defaults ?c) = Some rethrow"
    "defaultsOnError (defaults demoClient) = None" "onError ?q = Some absorb"
    "defaults (demoClient\<lparr>apiKey := None\<rparr>) = defaults demoClient"
    by (simp_all add: client_eval)
  show ?thesis
    using error_routing[where js = demoJs and w = ?w and c = ?c and st = demoStore
            and p = "demoParams\<lparr>onError := Some absorb\<rparr>" and error = ?e, THEN conjunct1]
      error_routing[where js = demoJs and w = ?w and c = ?c and st = demoStore
            and p = demoParams and error = ?e, THEN conjunct1]
      error_routing[where js = demoJs and w = ?w and c = demoClient and st = demoStore
            and p = demoParams and error = ?e, THEN conjunct1]
      error_routing[where js = demoJs and rep = serverError
            and c = "demoClient\<lparr>apiKey := None\<rparr>" and q = ?q and error' = ?d, THEN conjunct2]
      t1 t2 t3 t4 fx
    unfolding hs by simp
qed

lemma deleteTrace_evicts:
  assumes "result (deleteTrace js rep c q) = Resolved (Some b)"
  shows "registeredTraces (clientAfter (deleteTrace js rep c q))
           = registeredTraces c - {toUpperCase js (applyTraceSuffix c (traceKey q))}"
proof -
  have "result (deleteTrace_try js rep c q) = Inr b"
    using assms by (simp add: deleteTrace_value)
  then show "registeredTraces (clientAfter (deleteTrace js rep c q))
           = registeredTraces c - {toUpperCase js (applyTraceSuffix c (traceKey q))}"
    using deleteTrace_try_returns[of js rep c q b] by (simp add: deleteTrace_after)
qed

text \<open>
  C6. \<^verbatim>\<open>deleteTrace\<close> returns the response body exactly when an API key is configured, the
  trace key is not empty, the request resolves with a status below 400 and its body
  parses. It has then removed from the cache the upper-cased fully-qualified key and
  nothing else. So when the fully-qualified key is in the cache, where registration puts
  it in its original case, and differs from its upper-cased form, it is still in the cache
  afterwards.
\<close>

theorem deleteTrace_evicts_upper_cased_key:
  "(result (deleteTrace js rep c q) = Resolved (Some b)
      \<longleftrightarrow> (\<exists>key response. apiKey c = Some key \<and> key \<noteq> [] \<and> traceKey q \<noteq> []
             \<and> rep = Responds response \<and> statusCode response < 400
             \<and> body response = Parsed b))
   \<and> (result (deleteTrace js rep c q) = Resolved (Some b) \<longrightarrow>
        registeredTraces (clientAfter (deleteTrace js rep c q))
          = registeredTraces c - {toUpperCase js (applyTraceSuffix c (traceKey q))}
      \<and> toUpperCase js (applyTraceSuffix c (traceKey q))
          \<notin> registeredTraces (clientAfter (deleteTrace js rep c q))
      \<and> (applyTraceSuffix c (traceKey q) \<in> registeredTraces c
            \<and> toUpperCase js (applyTraceSuffix c (traceKey q)) \<noteq> applyTraceSuffix c (traceKey q)
          \<longrightarrow> applyTraceSuffix c (traceKey q)
                \<in> registeredTraces (clientAfter (deleteTrace js rep c q))))"
proof (intro conjI impI)
  show "result (deleteTrace js rep c q) = Resolved (Some b)
      \<longleftrightarrow> (\<exists>key response. apiKey c = Some key \<and> key \<noteq> [] \<and> traceKey q \<noteq> []
             \<and> rep = Responds response \<and> statusCode response < 400
             \<and> body response = Parsed b)"
    unfolding deleteTrace_value by (rule deleteTrace_try_value)
next
  assume ok: "result (deleteTrace js rep c q) = Resolved (Some b)"
  show evicted: "registeredTraces (clientAfter (deleteTrace js rep c q))
           = registeredTraces c - {toUpperCase js (applyTraceSuffix c (traceKey q))}"
    by (rule deleteTrace_evicts[OF ok])
  show "toUpperCase js (applyTraceSuffix c (traceKey q))
          \<notin> registeredTraces (clientAfter (deleteTrace js rep c q))"
    unfolding evicted by simp
  assume cached: "applyTraceSuffix c (traceKey q) \<in> registeredTraces c
            \<and> toUpperCase js (applyTraceSuffix c (traceKey q)) \<noteq> applyTraceSuffix c (traceKey q)"
  have there: "applyTraceSuffix c (traceKey q) \<in> registeredTraces c"
    using cached by (rule conjunct1)
  have "toUpperCase js (applyTraceSuffix c (traceKey q)) \<noteq> applyTraceSuffix c (traceKey q)"
    using cached by (rule conjunct2)
  then have other: "applyTraceSuffix c (traceKey q) \<noteq> toUpperCase js (applyTraceSuffix c (traceKey q))"
    by (rule not_sym)
  show "applyTraceSuffix c (traceKey q) \<in> registeredTraces (clientAfter (deleteTrace js rep c q))"
    unfolding evicted using there other by simp
qed

theorem deleteTrace_evicts_upper_cased_key_witness:
  "registeredTraces bothCached = {''deposit_1'', ''DEPOSIT_1''}
   \<and> apiKey bothCached = Some ''secret''
   \<and> applyTraceSuffix bothCached ''deposit_1'' = ''deposit_1''
   \<and> toUpperCase demoJs ''deposit_1'' = ''DEPOSIT_1''
   \<and> result (deleteTrace demoJs (okReply (JObj [])) bothCached
        \<lparr>traceKey = ''deposit_1'', onError = None\<rparr>) = Resolved (Some (JObj []))
   \<and> registeredTraces (clientAfter (deleteTrace demoJs (okReply (JObj [])) bothCached
        \<lparr>traceKey = ''deposit_1'', onError = None\<rparr>)) = {''deposit_1''}
   \<and> ''DEPOSIT_1'' \<notin> registeredTraces (clientAfter (deleteTrace demoJs (okReply (JObj []))
        bothCached \<lparr>traceKey = ''deposit_1'', onError = None\<rparr>))
   \<and> ''deposit_1'' \<in> registeredTraces (clientAfter (deleteTrace demoJs (okReply (JObj []))
        bothCached \<lparr>traceKey = ''deposit_1'', onError = None\<rparr>))"
proof -
  let ?q = "\<lparr>traceKey = ''deposit_1'', onError = None\<rparr>"
  let ?r = "\<lparr>statusCode = 200, body = Parsed (JObj [])\<rparr>"
  note inst = deleteTrace_evicts_upper_cased_key[where js = demoJs and rep = "okReply (JObj [])"
      and c = bothCached and q = ?q and b = "JObj []"]
  have cache: "registeredTraces bothCached = {''deposit_1'', ''DEPOSIT_1''}"
    and key: "apiKey bothCached = Some ''secret''"
    and k: "applyTraceSuffix bothCached ''deposit_1'' = ''deposit_1''"
    unfolding bothCached_eval
    by (simp_all add: plainClient_def newHellesClient_def applyTraceSuffix_def demoDefaults_def)
  have u: "toUpperCase demoJs ''deposit_1'' = ''DEPOSIT_1''"
    by (simp add: demoJs_def upperChar_def)
  have inputs: "\<exists>key response. apiKey bothCached = Some key \<and> key \<noteq> [] \<and> traceKey ?q \<noteq> []
             \<and> okReply (JObj []) = Responds response \<and> statusCode response < 400
             \<and> body response = Parsed (JObj [])"
  proof (intro exI conjI)
    show "apiKey bothCached = Some ''secret''" by (rule key)
    show "''secret'' \<noteq> []" by simp
    show "traceKey ?q \<noteq> []" by simp
    show "okReply (JObj []) = Responds ?r" by (simp add: okReply_def)
    show "statusCode ?r < 400" by simp
    show "body ?r = Parsed (JObj [])" by simp
  qed
  have r: "result (deleteTrace demoJs (okReply (JObj [])) bothCached ?q)
             = Resolved (Some (JObj []))"
    using inst[THEN conjunct1] inputs by (rule iffD2)
  note after = inst[THEN conjunct2, rule_format, OF r]
  have diff: "{''deposit_1'', ''DEPOSIT_1''} - {''DEPOSIT_1''} = {''deposit_1''}"
    by auto
  have a: "registeredTraces (clientAfter (deleteTrace demoJs (okReply (JObj [])) bothCached ?q))
             = {''deposit_1''}"
    using after[THEN conjunct1] unfolding deleteParams.simps k u cache diff by simp
  have gone: "''DEPOSIT_1'' \<notin> registeredTraces (clientAfter (deleteTrace demoJs (okReply (JObj []))
        bothCached ?q))"
    and kept: "''deposit_1'' \<in> registeredTraces (clientAfter (deleteTrace demoJs (okReply (JObj []))
        bothCached ?q))"
    unfolding a by simp_all
  show ?thesis
    by (intro conjI cache key k u r a gone kept)
qed

text \<open>
  C7, as the claim states it, fails: the source assigns the label and the icon to the
  object it was given, so the object of the caller (at address 0 here) has the key
  \<^verbatim>\<open>eventTypeLabel\<close> after the call and had not before.
\<close>

theorem overrides_mutate_callers_object_counterexample:
  "eventAttributes (demoParams\<lparr>eventTypeLabel := Some ''Alert'', eventTypeIcon := Some ''!''\<rparr>)
     = Some 0
   \<and> demoStore 0 ''eventTypeLabel'' = None
   \<and> storeAfter (logTraceEvent demoJs demoWorld demoClient demoStore
        (demoParams\<lparr>eventTypeLabel := Some ''Alert'', eventTypeIcon := Some ''!''\<rparr>))
        0 ''eventTypeLabel'' = Some (JStr ''Alert'')
   \<and> storeAfter (logTraceEvent demoJs demoWorld demoClient demoStore
        (demoParams\<lparr>eventTypeLabel := Some ''Alert'', eventTypeIcon := Some ''!''\<rparr>)) 0
      \<noteq> demoStore 0"
proof -
  let ?p = "demoParams\<lparr>eventTypeLabel := Some ''Alert'', eventTypeIcon := Some ''!''\<rparr>"
  have a: "eventAttributes ?p = Some 0" and b: "demoStore 0 ''eventTypeLabel'' = None"
    by (simp_all add: demoParams_def demoStore_def)
  have c: "storeAfter (logTraceEvent demoJs demoWorld demoClient demoStore ?p) 0 ''eventTypeLabel''
             = Some (JStr ''Alert'')"
    by (simp add: client_eval)
  have "storeAfter (logTraceEvent demoJs demoWorld demoClient demoStore ?p) 0 \<noteq> demoStore 0"
    using b c by (metis option.distinct(1))
  then show ?thesis using a b c by simp
qed

text \<open>
  C7, amended. For a call with a non-empty \<^verbatim>\<open>eventTypeLabel\<close> and a non-empty
  \<^verbatim>\<open>eventTypeIcon\<close>, every event submission carries the attributes of the caller with
  the two values under the keys \<^verbatim>\<open>eventTypeLabel\<close> and \<^verbatim>\<open>eventTypeIcon\<close>, and the object of
  the caller is updated in place with the same two entries (no copy is made); no other
  object of the store changes.
\<close>

theorem overrides_written_in_place:
  assumes "eventTypeLabel p = Some l" and "l \<noteq> []"
    and "eventTypeIcon p = Some i" and "i \<noteq> []"
  shows "(\<forall>e\<in>set (effects (logTraceEvent js w c st p)). isEventCall e \<longrightarrow>
            pEventAttributes (postBody e)
              = (case eventAttributes p of Some r \<Rightarrow> st r | None \<Rightarrow> Map.empty)
                  (''eventTypeLabel'' \<mapsto> JStr l, ''eventTypeIcon'' \<mapsto> JStr i))
       \<and> (\<forall>r. eventAttributes p = Some r \<longrightarrow>
            storeAfter (logTraceEvent js w c st p)
              = st(r := (st r)(''eventTypeLabel'' \<mapsto> JStr l, ''eventTypeIcon'' \<mapsto> JStr i)))
       \<and> (eventAttributes p = None \<longrightarrow> storeAfter (logTraceEvent js w c st p) = st)"
proof -
  have inj: "injectOverrides p a = a(''eventTypeLabel'' \<mapsto> JStr l, ''eventTypeIcon'' \<mapsto> JStr i)"
    for a using assms by (simp add: injectOverrides_def)
  have sent: "\<forall>e\<in>set (effects (logTraceEvent js w c st p)). isEventCall e \<longrightarrow>
            pEventAttributes (postBody e)
              = (case eventAttributes p of Some r \<Rightarrow> st r | None \<Rightarrow> Map.empty)
                  (''eventTypeLabel'' \<mapsto> JStr l, ''eventTypeIcon'' \<mapsto> JStr i)"
  proof (intro ballI impI)
    fix e assume "e \<in> set (effects (logTraceEvent js w c st p))" and "isEventCall e"
    then obtain s where "e = eventCall w c st p s"
      using event_calls_shape by blast
    then show "pEventAttributes (postBody e)
              = (case eventAttributes p of Some r \<Rightarrow> st r | None \<Rightarrow> Map.empty)
                  (''eventTypeLabel'' \<mapsto> JStr l, ''eventTypeIcon'' \<mapsto> JStr i)"
      by (simp add: eventCall_def inj)
  qed
  show ?thesis
    using sent by (simp add: logTraceEvent_after try_store inj)
qed

theorem overrides_written_in_place_witness:
  "map (pEventAttributes \<circ> postBody)
     (filter isEventCall (effects (logTraceEvent demoJs demoWorld demoClient demoStore
        (demoParams\<lparr>eventTypeLabel := Some ''Alert'', eventTypeIcon := Some ''!''\<rparr>))))
     = [[''amount'' \<mapsto> JNum 1000, ''eventTypeLabel'' \<mapsto> JStr ''Alert'',
         ''eventTypeIcon'' \<mapsto> JStr ''!'']]
   \<and> storeAfter (logTraceEvent demoJs demoWorld demoClient demoStore
        (demoParams\<lparr>eventTypeLabel := Some ''Alert'', eventTypeIcon := Some ''!''\<rparr>))
     = demoStore(0 := [''amount'' \<mapsto> JNum 1000, ''eventTypeLabel'' \<mapsto> JStr ''Alert'',
         ''eventTypeIcon'' \<mapsto> JStr ''!''])"
proof -
  let ?p = "demoParams\<lparr>eventTypeLabel := Some ''Alert'', eventTypeIcon := Some ''!''\<rparr>"
  have h: "eventTypeLabel ?p = Some ''Alert''" "''Alert'' \<noteq> []"
    "eventTypeIcon ?p = Some ''!''" "''!'' \<noteq> []"
    by (simp_all add: demoParams_def)
  have a: "eventAttributes ?p = Some 0" and s0: "demoStore 0 = [''amount'' \<mapsto> JNum 1000]"
    by (simp_all add: demoParams_def demoStore_def)
  have fx: "filter isEventCall (effects (logTraceEvent demoJs demoWorld demoClient demoStore ?p))
      = [eventCall demoWorld demoClient demoStore ?p ''my-service'']"
    by (simp add: client_eval)
  have sent: "pEventAttributes (postBody (eventCall demoWorld demoClient demoStore ?p ''my-service''))
      = [''amount'' \<mapsto> JNum 1000, ''eventTypeLabel'' \<mapsto> JStr ''Alert'',
         ''eventTypeIcon'' \<mapsto> JStr ''!'']"
    by (simp add: eventCall_def injectOverrides_def a s0 demoParams_def)
  show ?thesis
    using overrides_written_in_place[OF h, of demoJs demoWorld demoClient demoStore]
    by (simp add: a s0 fx sent)
qed

text \<open>
  C8, as the claim states it, fails for an explicit sender that is the empty string:
  \<^verbatim>\<open>eventSender || this.defaults.sender\<close> takes the default, so the event is submitted
  with the sender of the configuration and not with the parameter.
\<close>

theorem empty_sender_counterexample:
  "eventSender (demoParams\<lparr>eventSender := Some ''''\<rparr>) = Some ''''
   \<and> sender (defaults demoClient) = Some ''my-service''
   \<and> map (pEventSender \<circ> postBody)
        (filter isEventCall (effects (logTraceEvent demoJs demoWorld demoClient demoStore
           (demoParams\<lparr>eventSender := Some ''''\<rparr>))))
      = [''my-service'']"
  by (simp add: client_eval)

text \<open>
  C8, amended. The sender of every event submission is the \<^verbatim>\<open>eventSender\<close> parameter when
  it is given and not empty, and the default sender of the configuration otherwise. When
  the parameter is absent or empty and no default is configured, the call fails before
  any request: with \<^verbatim>\<open>eventSender is required\<close> when the timestamp is in the window, and
  with the out-of-range error, whose check comes first, when it is not.
\<close>

theorem sender_resolution:
  "(\<forall>e\<in>set (effects (logTraceEvent js w c st p)). isEventCall e \<longrightarrow>
       Some (pEventSender (postBody e))
         = (case eventSender p of
              Some s \<Rightarrow> if s \<noteq> [] then Some s else sender (defaults c)
            | None \<Rightarrow> sender (defaults c)))
   \<and> ((eventSender p = None \<or> eventSender p = Some []) \<and> sender (defaults c) = None \<longrightarrow>
        result (logTraceEvent_try js w c st p)
          = (if inWindow (effectiveTimestamp w c p)
             then Inl (newError ''eventSender is required'')
             else Inl (outOfRange js (effectiveTimestamp w c p)))
      \<and> effects (logTraceEvent_try js w c st p) = []
      \<and> filter isPost (effects (logTraceEvent js w c st p)) = []
      \<and> (onError p = None \<and> defaultsOnError (defaults c) = None
           \<and> inWindow (effectiveTimestamp w c p) \<longrightarrow>
           result (logTraceEvent js w c st p) = Rejected (newError ''eventSender is required'')))"
proof (intro conjI ballI impI)
  fix e assume "e \<in> set (effects (logTraceEvent js w c st p))" and "isEventCall e"
  then obtain s where "effectiveSender c p = Some s" and "e = eventCall w c st p s"
    using event_calls_shape by blast
  then show "Some (pEventSender (postBody e))
         = (case eventSender p of
              Some s \<Rightarrow> if s \<noteq> [] then Some s else sender (defaults c)
            | None \<Rightarrow> sender (defaults c))"
    by (simp add: eventCall_def effectiveSender_def)
next
  assume h: "(eventSender p = None \<or> eventSender p = Some []) \<and> sender (defaults c) = None"
  then have none: "effectiveSender c p = None"
    by (auto simp: effectiveSender_def)
  show res: "result (logTraceEvent_try js w c st p)
          = (if inWindow (effectiveTimestamp w c p)
             then Inl (newError ''eventSender is required'')
             else Inl (outOfRange js (effectiveTimestamp w c p)))"
    using try_no_sender[OF _ none, of w js st] try_out_of_range[of w c p js st] by simp
  show fx: "effects (logTraceEvent_try js w c st p) = []"
    using try_no_sender[OF _ none, of w js st] try_out_of_range[of w c p js st] by blast
  show "filter isPost (effects (logTraceEvent js w c st p)) = []"
    by (simp add: logTraceEvent_posts fx)
  assume "onError p = None \<and> defaultsOnError (defaults c) = None
           \<and> inWindow (effectiveTimestamp w c p)"
  then show "result (logTraceEvent js w c st p) = Rejected (newError ''eventSender is required'')"
    using res try_defaults[of js w c st p] by (simp add: logTraceEvent_def Let_def routeError_def)
qed

theorem sender_resolution_witness:
  "map (pEventSender \<circ> postBody)
        (filter isEventCall (effects (logTraceEvent demoJs demoWorld demoClient demoStore
           (demoParams\<lparr>eventSender := Some ''checkout''\<rparr>))))
      = [''checkout'']
   \<and> map (pEventSender \<circ> postBody)
        (filter isEventCall (effects (logTraceEvent demoJs demoWorld demoClient demoStore
           demoParams)))
      = [''my-service'']
   \<and> result (logTraceEvent demoJs demoWorld
        (demoClient\<lparr>defaults := demoDefaults\<lparr>sender := None\<rparr>\<rparr>) demoStore demoParams)
      = Rejected (newError ''eventSender is required'')
   \<and> effects (logTraceEvent demoJs demoWorld
        (demoClient\<lparr>defaults := demoDefaults\<lparr>sender := None\<rparr>\<rparr>) demoStore demoParams) = []"
proof -
  let ?p = "demoParams\<lparr>eventSender := Some ''checkout''\<rparr>"
  let ?c = "demoClient\<lparr>defaults := demoDefaults\<lparr>sender := None\<rparr>\<rparr>"
  have fx1: "filter isEventCall (effects (logTraceEvent demoJs demoWorld demoClient demoStore ?p))
      = [eventCall demoWorld demoClient demoStore ?p ''checkout'']"
    and fx2: "filter isEventCall (effects (logTraceEvent demoJs demoWorld demoClient demoStore demoParams))
      = [eventCall demoWorld demoClient demoStore demoParams ''my-service'']"
    by (simp_all add: client_eval)
  have in1: "eventCall demoWorld demoClient demoStore ?p ''checkout''
               \<in> set (effects (logTraceEvent demoJs demoWorld demoClient demoStore ?p))"
    and in2: "eventCall demoWorld demoClient demoStore demoParams ''my-service''
               \<in> set (effects (logTraceEvent demoJs demoWorld demoClient demoStore demoParams))"
    by (simp_all add: client_eval)
  have s1: "pEventSender (postBody (eventCall demoWorld demoClient demoStore ?p ''checkout''))
              = ''checkout''"
    using sender_resolution[where js = demoJs and w = demoWorld and c = demoClient
        and st = demoStore and p = ?p, THEN conjunct1, THEN bspec, OF in1]
    by (simp add: demoParams_def)
  have s2: "pEventSender (postBody (eventCall demoWorld demoClient demoStore demoParams ''my-service''))
              = ''my-service''"
    using sender_resolution[where js = demoJs and w = demoWorld and c = demoClient
        and st = demoStore and p = demoParams, THEN conjunct1, THEN bspec, OF in2]
    by (simp add: demoParams_def demoClient_def newHellesClient_def demoDefaults_def)
  have h: "(eventSender demoParams = None \<or> eventSender demoParams = Some [])
      \<and> sender (defaults ?c) = None"
    and hs: "onError demoParams = None \<and> defaultsOnError (defaults ?c) = None
      \<and> inWindow (effectiveTimestamp demoWorld ?c demoParams)"
    by (simp_all add: client_eval)
  have none: "result (logTraceEvent demoJs demoWorld ?c demoStore demoParams)
      = Rejected (newError ''eventSender is required'')"
    using sender_resolution[where js = demoJs and w = demoWorld and c = ?c
        and st = demoStore and p = demoParams, THEN conjunct2] h hs
    by blast
  have fx3: "effects (logTraceEvent demoJs demoWorld ?c demoStore demoParams) = []"
    by (simp add: client_eval)
  show ?thesis
    by (simp add: fx1 fx2 s1 s2 none fx3)
qed

text \<open>
  C10. When the body of \<^verbatim>\<open>logTraceEvent\<close> or of \<^verbatim>\<open>deleteTrace\<close> raises an error and the
  handler that receives it (the per-call one, or else the one of the client) returns, the
  promise resolves with \<^verbatim>\<open>undefined\<close>.
\<close>

theorem absorbed_error_resolves_undefined:
  "(result (logTraceEvent_try js w c st p) = Inl error
      \<and> ((\<exists>h. onError p = Some h \<and> h error = None)
         \<or> (onError p = None \<and> (\<exists>g. defaultsOnError (defaults c) = Some g \<and> g error = None)))
     \<longrightarrow> result (logTraceEvent js w c st p) = Resolved None)
   \<and> (result (deleteTrace_try js rep c q) = Inl error'
      \<and> ((\<exists>h. onError q = Some h \<and> h error' = None)
         \<or> (onError q = None \<and> (\<exists>g. defaultsOnError (defaults c) = Some g \<and> g error' = None)))
     \<longrightarrow> result (deleteTrace js rep c q) = Resolved None)"
  by (auto simp: logTraceEvent_def deleteTrace_def Let_def routeError_def settle_def
        try_defaults deleteTrace_try_defaults)

theorem absorbed_error_resolves_undefined_witness:
  "result (logTraceEvent_try demoJs (demoWorld\<lparr>eventReply := serverError\<rparr>) demoClient demoStore
             (demoParams\<lparr>onError := Some absorb\<rparr>))
     = Inl (newError ''logTraceEvent err: logTraceEvent err: boom'')
   \<and> absorb (newError ''logTraceEvent err: logTraceEvent err: boom'') = None
   \<and> result (logTraceEvent demoJs (demoWorld\<lparr>eventReply := serverError\<rparr>) demoClient demoStore
             (demoParams\<lparr>onError := Some absorb\<rparr>)) = Resolved None
   \<and> result (deleteTrace_try demoJs serverError
        (demoClient\<lparr>defaults := demoDefaults\<lparr>defaultsOnError := Some absorb\<rparr>\<rparr>)
        \<lparr>traceKey = ''deposit_1234567'', onError = None\<rparr>)
      = Inl (newError ''deleteTrace err: deleteTrace err: boom'')
   \<and> result (deleteTrace demoJs serverError
        (demoClient\<lparr>defaults := demoDefaults\<lparr>defaultsOnError := Some absorb\<rparr>\<rparr>)
        \<lparr>traceKey = ''deposit_1234567'', onError = None\<rparr>) = Resolved None"
proof -
  let ?w = "demoWorld\<lparr>eventReply := serverError\<rparr>"
  let ?p = "demoParams\<lparr>onError := Some absorb\<rparr>"
  let ?c = "demoClient\<lparr>defaults := demoDefaults\<lparr>defaultsOnError := Some absorb\<rparr>\<rparr>"
  let ?q = "\<lparr>traceKey = ''deposit_1234567'', onError = None\<rparr>"
  let ?e = "newError ''logTraceEvent err: logTraceEvent err: boom''"
  let ?d = "newError ''deleteTrace err: deleteTrace err: boom''"
  have t1: "result (logTraceEvent_try demoJs ?w demoClient demoStore ?p) = Inl ?e"
    and t2: "result (deleteTrace_try demoJs serverError ?c ?q) = Inl ?d"
    by (simp_all add: client_eval)
  have hs: "onError ?p = Some absorb" "absorb ?e = None" "onError ?q = None"
    "defaultsOnError (defaults ?c) = Some absorb" "absorb ?d = None"
    by (simp_all add: client_eval)
  show ?thesis
    using absorbed_error_resolves_undefined[where js = demoJs and w = ?w and c = demoClient
            and st = demoStore and p = ?p and error = ?e, THEN conjunct1]
      absorbed_error_resolves_undefined[where js = demoJs and rep = serverError and c = ?c
            and q = ?q and error' = ?d, THEN conjunct2]
      t1 t2 hs
    by simp
qed

end
